theory Spec2Isabelle
  imports Complex_Main
begin

section \<open>The quickstart notebook: a feed-forward classifier, its training and persistence\<close>

text \<open>
  The notebook \<^verbatim>\<open>0-quickstart.ipynb\<close> is a sequence of calls into a tensor library. The
  code of the notebook (the class \<^verbatim>\<open>NeuralNetwork\<close>, the functions \<^verbatim>\<open>train\<close> and
  \<^verbatim>\<open>test\<close>, the epoch loop, the save, load and prediction cells) is embedded below as it
  is written. The library operations it calls are modelled by their documented meaning:
  a tensor is a shape with its entries in row-major order, the entries are real numbers
  (the rounding of 32-bit floating point is not modelled), and an exception raised by the
  library or by Python is an \<open>Inl\<close> result. The placement of tensors on a device
  (\<^verbatim>\<open>.to(device)\<close>) does not change any value and is left out.
\<close>

subsection \<open>Exceptions and tensors\<close>

datatype error = RuntimeError | IndexError | TypeError | ZeroDivisionError | FileNotFoundError

datatype tensor = Tensor (shape: "nat list") (data: "real list")

text \<open>Every tensor of the library holds as many entries as its shape says.\<close>

definition wf_tensor :: "tensor \<Rightarrow> bool" where
  "wf_tensor t \<longleftrightarrow> length (data t) = prod_list (shape t)"

text \<open>The \<open>n\<close> rows of \<open>k\<close> entries of a row-major block.\<close>

definition rows :: "nat \<Rightarrow> nat \<Rightarrow> 'a list \<Rightarrow> 'a list list" where
  "rows n k xs = map (\<lambda>i. take k (drop (i * k) xs)) [0..<n]"

definition dot :: "real list \<Rightarrow> real list \<Rightarrow> real" where
  "dot xs ys = sum_list (map2 (*) xs ys)"

subsection \<open>The layers\<close>

text \<open>
  \<^verbatim>\<open>nn.Flatten()\<close> has \<^verbatim>\<open>start_dim=1, end_dim=-1\<close>: it keeps the first dimension and
  merges all others; a tensor with fewer than two dimensions has no dimension 1.
\<close>

fun nn_Flatten :: "tensor \<Rightarrow> error + tensor" where
  "nn_Flatten (Tensor (n # d # ds) xs) = Inr (Tensor [n, prod_list (d # ds)] xs)"
| "nn_Flatten (Tensor _ xs) = Inl IndexError"

record Linear =
  in_features :: nat
  out_features :: nat
  weight :: tensor
  bias :: tensor

text \<open>
  \<^verbatim>\<open>nn.Linear(in_features, out_features)\<close> allocates a weight of shape
  \<open>[out_features, in_features]\<close> and a bias of shape \<open>[out_features]\<close>; the library draws
  their initial entries at random, here they are the parameters \<open>w0\<close> and \<open>b0\<close>.
\<close>

definition nn_Linear :: "nat \<Rightarrow> nat \<Rightarrow> (nat \<Rightarrow> real) \<Rightarrow> (nat \<Rightarrow> real) \<Rightarrow> Linear" where
  "nn_Linear inn out w0 b0 =
     \<lparr>in_features = inn, out_features = out,
      weight = Tensor [out, inn] (map w0 [0..<out * inn]),
      bias = Tensor [out] (map b0 [0..<out])\<rparr>"

text \<open>One input row \<open>r\<close> through a linear layer: entry \<open>j\<close> is \<open>r \<bullet> W\<^sub>j + b\<^sub>j\<close>.\<close>

definition linear_row :: "Linear \<Rightarrow> real list \<Rightarrow> real list" where
  "linear_row l r =
     map2 (\<lambda>w b. dot r w + b)
       (rows (out_features l) (in_features l) (data (weight l))) (data (bias l))"

text \<open>
  The layer applies to the last dimension of its input, which must be \<open>in_features\<close>;
  the library raises a RuntimeError on any other shape.
\<close>

definition Linear_forward :: "Linear \<Rightarrow> tensor \<Rightarrow> error + tensor" where
  "Linear_forward l x =
     (if shape x \<noteq> [] \<and> last (shape x) = in_features l
      then Inr (Tensor (butlast (shape x) @ [out_features l])
             (concat (map (linear_row l)
                (rows (prod_list (butlast (shape x))) (in_features l) (data x)))))
      else Inl RuntimeError)"

text \<open>\<^verbatim>\<open>nn.ReLU()\<close> replaces every negative entry by 0.\<close>

definition relu :: "real \<Rightarrow> real" where
  "relu v = max 0 v"

definition nn_ReLU :: "tensor \<Rightarrow> tensor" where
  "nn_ReLU x = Tensor (shape x) (map relu (data x))"

datatype module = Lin Linear | ReLU

fun module_forward :: "module \<Rightarrow> tensor \<Rightarrow> error + tensor" where
  "module_forward (Lin l) x = Linear_forward l x"
| "module_forward ReLU x = Inr (nn_ReLU x)"

text \<open>\<^verbatim>\<open>nn.Sequential\<close> feeds each module's output to the next one.\<close>

fun Sequential_forward :: "module list \<Rightarrow> tensor \<Rightarrow> error + tensor" where
  "Sequential_forward [] x = Inr x"
| "Sequential_forward (m # ms) x =
     (case module_forward m x of Inl e \<Rightarrow> Inl e | Inr y \<Rightarrow> Sequential_forward ms y)"

subsection \<open>The class NeuralNetwork\<close>

text \<open>
  A key of the parameter dictionary: \<open>Weight i\<close> stands for
  \<^verbatim>\<open>linear_relu_stack.i.weight\<close> and \<open>Bias i\<close> for \<^verbatim>\<open>linear_relu_stack.i.bias\<close>.
  A gradient gives, for every key and every position of that parameter, one partial
  derivative; \<open>grad\<close> is the \<^verbatim>\<open>.grad\<close> of the parameters, \<open>None\<close> when it is cleared.
\<close>

datatype key = Weight nat | Bias nat

type_synonym gradient = "key \<Rightarrow> nat \<Rightarrow> real"

type_synonym state_dict = "(key \<times> tensor) list"

record NeuralNetwork =
  linear_relu_stack :: "module list"
  training :: bool
  grad :: "gradient option"

text \<open>
  \<^verbatim>\<open>NeuralNetwork()\<close>: parameter number \<open>k\<close> (in the order of \<^verbatim>\<open>model.parameters()\<close>)
  starts from the entries \<open>init k\<close>. A new module is in training mode and has no gradient.
\<close>

definition NeuralNetwork_init :: "(nat \<Rightarrow> nat \<Rightarrow> real) \<Rightarrow> NeuralNetwork" where
  "NeuralNetwork_init init =
     \<lparr>linear_relu_stack =
        [Lin (nn_Linear (28 * 28) 1024 (init 0) (init 1)),
         ReLU,
         Lin (nn_Linear 1024 1024 (init 2) (init 3)),
         ReLU,
         Lin (nn_Linear 1024 512 (init 4) (init 5)),
         ReLU,
         Lin (nn_Linear 512 10 (init 6) (init 7))],
      training = True,
      grad = None\<rparr>"

definition forward :: "NeuralNetwork \<Rightarrow> tensor \<Rightarrow> error + tensor" where
  "forward self x =
     (case nn_Flatten x of
        Inl e \<Rightarrow> Inl e
      | Inr x' \<Rightarrow> Sequential_forward (linear_relu_stack self) x')"

text \<open>
  \<^verbatim>\<open>model.train()\<close> and \<^verbatim>\<open>model.eval()\<close> set the mode flag; no layer of this network
  reads it.
\<close>

definition model_train :: "NeuralNetwork \<Rightarrow> NeuralNetwork" where
  "model_train self = self\<lparr>training := True\<rparr>"

definition model_eval :: "NeuralNetwork \<Rightarrow> NeuralNetwork" where
  "model_eval self = self\<lparr>training := False\<rparr>"

subsection \<open>The parameter dictionary\<close>

fun module_state :: "nat \<times> module \<Rightarrow> state_dict" where
  "module_state (i, Lin l) = [(Weight i, weight l), (Bias i, bias l)]"
| "module_state (i, ReLU) = []"

definition state_dict :: "NeuralNetwork \<Rightarrow> state_dict" where
  "state_dict self = concat (map module_state (enumerate 0 (linear_relu_stack self)))"

fun load_module :: "(key \<rightharpoonup> tensor) \<Rightarrow> nat \<times> module \<Rightarrow> module" where
  "load_module sd (i, Lin l) =
     Lin (l\<lparr>weight := (case sd (Weight i) of Some t \<Rightarrow> t | None \<Rightarrow> weight l),
           bias := (case sd (Bias i) of Some t \<Rightarrow> t | None \<Rightarrow> bias l)\<rparr>)"
| "load_module sd (i, ReLU) = ReLU"

text \<open>
  \<^verbatim>\<open>load_state_dict\<close> is strict: a missing key, an unexpected key or a tensor of another
  shape raises a RuntimeError; otherwise every parameter takes the stored entries.
\<close>

definition load_state_dict :: "NeuralNetwork \<Rightarrow> state_dict \<Rightarrow> error + NeuralNetwork" where
  "load_state_dict self sd =
     (if set (map fst sd) = set (map fst (state_dict self)) \<and>
         list_all (\<lambda>(k, t). case map_of sd k of
                               Some t' \<Rightarrow> shape t' = shape t
                             | None \<Rightarrow> False) (state_dict self)
      then Inr (self\<lparr>linear_relu_stack :=
                     map (load_module (map_of sd)) (enumerate 0 (linear_relu_stack self))\<rparr>)
      else Inl RuntimeError)"

subsection \<open>The optimizer and the gradients\<close>

text \<open>
  \<^verbatim>\<open>torch.optim.SGD(model.parameters(), lr=1e-3)\<close>: momentum, dampening and weight decay
  keep their default 0, so the optimizer holds the learning rate only.
\<close>

record SGD =
  lr :: real

text \<open>
  \<^verbatim>\<open>loss.backward()\<close> adds the gradient of the loss to the \<^verbatim>\<open>.grad\<close> of every parameter
  (a cleared \<^verbatim>\<open>.grad\<close> takes it as it is). The gradient itself, \<open>g\<close>, is computed by the
  library's automatic differentiation.
\<close>

definition loss_backward :: "gradient \<Rightarrow> NeuralNetwork \<Rightarrow> NeuralNetwork" where
  "loss_backward g self =
     self\<lparr>grad := Some (case grad self of
                           None \<Rightarrow> g
                         | Some h \<Rightarrow> (\<lambda>k i. h k i + g k i))\<rparr>"

definition sgd_update :: "real \<Rightarrow> (nat \<Rightarrow> real) \<Rightarrow> tensor \<Rightarrow> tensor" where
  "sgd_update eta g p =
     Tensor (shape p) (map (\<lambda>(i, v). v - eta * g i) (enumerate 0 (data p)))"

fun module_step :: "real \<Rightarrow> gradient \<Rightarrow> nat \<times> module \<Rightarrow> module" where
  "module_step eta g (i, Lin l) =
     Lin (l\<lparr>weight := sgd_update eta (g (Weight i)) (weight l),
           bias := sgd_update eta (g (Bias i)) (bias l)\<rparr>)"
| "module_step eta g (i, ReLU) = ReLU"

text \<open>\<^verbatim>\<open>optimizer.step()\<close> skips parameters whose \<^verbatim>\<open>.grad\<close> is cleared.\<close>

definition optimizer_step :: "SGD \<Rightarrow> NeuralNetwork \<Rightarrow> NeuralNetwork" where
  "optimizer_step opt self =
     (case grad self of
        None \<Rightarrow> self
      | Some g \<Rightarrow>
          self\<lparr>linear_relu_stack :=
                 map (module_step (lr opt) g) (enumerate 0 (linear_relu_stack self))\<rparr>)"

definition optimizer_zero_grad :: "NeuralNetwork \<Rightarrow> NeuralNetwork" where
  "optimizer_zero_grad self = self\<lparr>grad := None\<rparr>"

subsection \<open>Datasets and data loaders\<close>

text \<open>
  A dataset is a list of samples, each an image tensor with its integer label.
  \<^verbatim>\<open>DataLoader(dataset, batch_size=batch_size)\<close> keeps the order of the samples (it does
  not shuffle) and does not drop a shorter last batch: \<open>chunks n\<close> cuts a list into pieces
  of \<open>n\<close> elements, the last one possibly shorter. The library rejects a batch size of 0;
  \<open>chunks 0\<close> has no piece.
\<close>

type_synonym sample = "tensor \<times> int"

record DataLoader =
  dataset :: "sample list"
  dl_batch_size :: nat

function chunks :: "nat \<Rightarrow> 'a list \<Rightarrow> 'a list list" where
  "chunks n xs = (if n = 0 \<or> xs = [] then [] else take n xs # chunks n (drop n xs))"
  by pat_completeness auto
termination
  by (relation "measure (\<lambda>(n, xs). length xs)") auto

declare chunks.simps [simp del]

text \<open>The default collate function stacks the images of a batch, which must agree in shape.\<close>

definition stack :: "tensor list \<Rightarrow> error + tensor" where
  "stack ts =
     (case ts of
        [] \<Rightarrow> Inl RuntimeError
      | t # _ \<Rightarrow>
          if list_all (\<lambda>u. shape u = shape t) ts
          then Inr (Tensor (length ts # shape t) (concat (map data ts)))
          else Inl RuntimeError)"

definition collate :: "sample list \<Rightarrow> error + tensor \<times> int list" where
  "collate b = (case stack (map fst b) of Inl e \<Rightarrow> Inl e | Inr X \<Rightarrow> Inr (X, map snd b))"

definition DataLoader_iter :: "DataLoader \<Rightarrow> (error + tensor \<times> int list) list" where
  "DataLoader_iter dl = map collate (chunks (dl_batch_size dl) (dataset dl))"

text \<open>\<^verbatim>\<open>len(dataloader)\<close>: the number of batches, rounded up.\<close>

definition DataLoader_len :: "DataLoader \<Rightarrow> nat" where
  "DataLoader_len dl = (length (dataset dl) + dl_batch_size dl - 1) div dl_batch_size dl"

subsection \<open>The loss and the predicted class\<close>

text \<open>
  \<^verbatim>\<open>nn.CrossEntropyLoss()\<close> on logits of shape \<open>[n, c]\<close> and \<open>n\<close> class labels: the mean
  over the batch of the negative log-likelihood of each sample's label. A label outside
  \<open>0..c-1\<close> raises an IndexError (the library's \<^verbatim>\<open>ignore_index\<close> of -100 is not a label of
  the dataset and is not modelled). On an empty batch the library answers NaN, which the
  reals do not have; a data loader yields no empty batch, and the model gives a
  RuntimeError there, as it does for logits that are not of rank 2 (the network returns
  rank 2).
\<close>

definition nll :: "real list \<Rightarrow> int \<Rightarrow> real" where
  "nll z t = ln (sum_list (map exp z)) - z ! nat t"

definition nn_CrossEntropyLoss :: "tensor \<Rightarrow> int list \<Rightarrow> error + real" where
  "nn_CrossEntropyLoss pred y =
     (case shape pred of
        [n, c] \<Rightarrow>
          if length y \<noteq> n \<or> n = 0 then Inl RuntimeError
          else if list_all (\<lambda>t. 0 \<le> t \<and> t < int c) y
          then Inr (sum_list (map2 nll (rows n c (data pred)) y) / real n)
          else Inl IndexError
      | _ \<Rightarrow> Inl RuntimeError)"

text \<open>The index of the first maximal entry.\<close>

fun argmax_from :: "nat \<Rightarrow> real \<Rightarrow> nat \<Rightarrow> real list \<Rightarrow> nat" where
  "argmax_from best v i [] = best"
| "argmax_from best v i (x # xs) =
     (if v < x then argmax_from i x (Suc i) xs else argmax_from best v (Suc i) xs)"

definition argmax_row :: "real list \<Rightarrow> error + nat" where
  "argmax_row xs = (case xs of [] \<Rightarrow> Inl IndexError | x # xs' \<Rightarrow> Inr (argmax_from 0 x 1 xs'))"

fun collect :: "(error + 'a) list \<Rightarrow> error + 'a list" where
  "collect [] = Inr []"
| "collect (r # rs) =
     (case r of
        Inl e \<Rightarrow> Inl e
      | Inr v \<Rightarrow> (case collect rs of Inl e \<Rightarrow> Inl e | Inr vs \<Rightarrow> Inr (v # vs)))"

text \<open>
  \<^verbatim>\<open>t.argmax(1)\<close> for a tensor of rank 2 (one index per row) and \<^verbatim>\<open>t.argmax(0)\<close> for a
  tensor of rank 1 (one index); the program applies them to nothing else.
\<close>

definition argmax1 :: "tensor \<Rightarrow> error + nat list" where
  "argmax1 t =
     (case shape t of
        [n, c] \<Rightarrow> collect (map argmax_row (rows n c (data t)))
      | _ \<Rightarrow> Inl IndexError)"

definition argmax0 :: "tensor \<Rightarrow> error + nat" where
  "argmax0 t = (case shape t of [c] \<Rightarrow> argmax_row (data t) | _ \<Rightarrow> Inl IndexError)"

text \<open>
  \<^verbatim>\<open>(p == y).type(torch.float).sum().item()\<close>: the number of positions where the two
  agree; an operand of length 1 is broadcast, other unequal lengths raise.
\<close>

definition count_equal :: "nat list \<Rightarrow> int list \<Rightarrow> error + real" where
  "count_equal p y =
     (if length p = length y
      then Inr (real (length (filter (\<lambda>(a, b). int a = b) (zip p y))))
      else if length p = 1 then Inr (real (length (filter (\<lambda>b. int (hd p) = b) y)))
      else if length y = 1 then Inr (real (length (filter (\<lambda>a. int a = hd y) p)))
      else Inl RuntimeError)"

text \<open>\<^verbatim>\<open>t[i]\<close> and \<^verbatim>\<open>len(t)\<close> of a tensor, and Python's indexing of a list.\<close>

definition tensor_get :: "tensor \<Rightarrow> nat \<Rightarrow> error + tensor" where
  "tensor_get t i =
     (case shape t of
        [] \<Rightarrow> Inl IndexError
      | n # s \<Rightarrow>
          if i < n
          then Inr (Tensor s (take (prod_list s) (drop (i * prod_list s) (data t))))
          else Inl IndexError)"

definition tensor_len :: "tensor \<Rightarrow> error + nat" where
  "tensor_len t = (case shape t of [] \<Rightarrow> Inl TypeError | n # _ \<Rightarrow> Inr n)"

definition list_get :: "'a list \<Rightarrow> int \<Rightarrow> error + 'a" where
  "list_get xs i =
     (let n = int (length xs); j = (if i < 0 then n + i else i)
      in if 0 \<le> j \<and> j < n then Inr (xs ! nat j) else Inl IndexError)"

subsection \<open>The state of the notebook\<close>

text \<open>
  What the cells print is kept as a trace, each line as the values it formats. \<open>Step b\<close>
  is not printed: it marks one call of \<^verbatim>\<open>optimizer.step()\<close>, for the batch with index
  \<open>b\<close>, so that the trace shows the order of the training steps among the printed lines.
  \<open>files\<close> are the files on disk that hold a parameter dictionary.
\<close>

datatype printed =
    Epoch nat
  | Loss real nat nat
  | TestError real real
  | Done
  | Saved string
  | Predicted string string

datatype event = Print printed | Step nat

record world =
  model :: NeuralNetwork
  optimizer :: SGD
  trace :: "event list"
  files :: "string \<rightharpoonup> state_dict"

subsection \<open>The functions train and test\<close>

text \<open>
  One pass of the body of the loop of \<^verbatim>\<open>train\<close>. \<open>autograd self X y\<close> is the gradient
  that \<^verbatim>\<open>loss.backward()\<close> computes for \<^verbatim>\<open>loss = loss_fn(model(X), y)\<close>.
\<close>

definition train_batch ::
  "(NeuralNetwork \<Rightarrow> tensor \<Rightarrow> int list \<Rightarrow> gradient) \<Rightarrow> (tensor \<Rightarrow> int list \<Rightarrow> error + real) \<Rightarrow>
   nat \<Rightarrow> nat \<Rightarrow> tensor \<Rightarrow> int list \<Rightarrow> world \<Rightarrow> error + world" where
  "train_batch autograd loss_fn size' batch X y w =
     (case forward (model w) X of
        Inl e \<Rightarrow> Inl e
      | Inr pred \<Rightarrow>
     (case loss_fn pred y of
        Inl e \<Rightarrow> Inl e
      | Inr loss \<Rightarrow>
          let m1 = loss_backward (autograd (model w) X y) (model w);
              m2 = optimizer_step (optimizer w) m1;
              m3 = optimizer_zero_grad m2;
              w' = w\<lparr>model := m3, trace := trace w @ [Step batch]\<rparr>
          in if batch mod 100 = 0
             then (case tensor_len X of
                     Inl e \<Rightarrow> Inl e
                   | Inr n \<Rightarrow>
                       Inr (w'\<lparr>trace := trace w' @ [Print (Loss loss ((batch + 1) * n) size')]\<rparr>))
             else Inr w'))"

fun train_loop ::
  "(NeuralNetwork \<Rightarrow> tensor \<Rightarrow> int list \<Rightarrow> gradient) \<Rightarrow> (tensor \<Rightarrow> int list \<Rightarrow> error + real) \<Rightarrow>
   nat \<Rightarrow> (nat \<times> (error + tensor \<times> int list)) list \<Rightarrow> world \<Rightarrow> error + world" where
  "train_loop autograd loss_fn size' [] w = Inr w"
| "train_loop autograd loss_fn size' ((batch, b) # bs) w =
     (case b of
        Inl e \<Rightarrow> Inl e
      | Inr (X, y) \<Rightarrow>
          (case train_batch autograd loss_fn size' batch X y w of
             Inl e \<Rightarrow> Inl e
           | Inr w' \<Rightarrow> train_loop autograd loss_fn size' bs w'))"

definition train ::
  "(NeuralNetwork \<Rightarrow> tensor \<Rightarrow> int list \<Rightarrow> gradient) \<Rightarrow> DataLoader \<Rightarrow>
   (tensor \<Rightarrow> int list \<Rightarrow> error + real) \<Rightarrow> world \<Rightarrow> error + world" where
  "train autograd dataloader loss_fn w =
     (let size' = length (dataset dataloader)
      in train_loop autograd loss_fn size' (enumerate 0 (DataLoader_iter dataloader))
           (w\<lparr>model := model_train (model w)\<rparr>))"

text \<open>The loop of \<^verbatim>\<open>test\<close> carries \<open>(test_loss, correct)\<close>.\<close>

fun test_loop ::
  "(tensor \<Rightarrow> int list \<Rightarrow> error + real) \<Rightarrow> NeuralNetwork \<Rightarrow>
   (error + tensor \<times> int list) list \<Rightarrow> real \<times> real \<Rightarrow> error + real \<times> real" where
  "test_loop loss_fn m [] acc = Inr acc"
| "test_loop loss_fn m (b # bs) acc =
     (case b of
        Inl e \<Rightarrow> Inl e
      | Inr (X, y) \<Rightarrow>
     (case forward m X of
        Inl e \<Rightarrow> Inl e
      | Inr pred \<Rightarrow>
     (case loss_fn pred y of
        Inl e \<Rightarrow> Inl e
      | Inr l \<Rightarrow>
     (case argmax1 pred of
        Inl e \<Rightarrow> Inl e
      | Inr p \<Rightarrow>
     (case count_equal p y of
        Inl e \<Rightarrow> Inl e
      | Inr c \<Rightarrow> test_loop loss_fn m bs (fst acc + l, snd acc + c))))))"

text \<open>
  \<^verbatim>\<open>torch.no_grad()\<close>: nothing in the block records a gradient. Dividing by
  \<^verbatim>\<open>num_batches\<close> or \<^verbatim>\<open>size\<close> raises when it is 0.
\<close>

definition test ::
  "DataLoader \<Rightarrow> (tensor \<Rightarrow> int list \<Rightarrow> error + real) \<Rightarrow> world \<Rightarrow> error + world" where
  "test dataloader loss_fn w =
     (let size' = length (dataset dataloader);
          num_batches = DataLoader_len dataloader;
          m = model_eval (model w)
      in case test_loop loss_fn m (DataLoader_iter dataloader) (0, 0) of
           Inl e \<Rightarrow> Inl e
         | Inr (test_loss, correct) \<Rightarrow>
             if num_batches = 0 then Inl ZeroDivisionError
             else if size' = 0 then Inl ZeroDivisionError
             else Inr (w\<lparr>model := m,
                         trace := trace w @
                           [Print (TestError (100 * (correct / real size'))
                                             (test_loss / real num_batches))]\<rparr>))"

subsection \<open>The cells of the notebook\<close>

text \<open>
  The downloaded datasets \<open>training_data\<close> and \<open>test_data\<close>, the random initial entries of
  the two networks, the gradients of automatic differentiation and the files already on
  disk are parameters. The cells that only print (the shape of the first test batch, the
  device, the layers of the model) are left out.
\<close>

definition batch_size :: nat where
  "batch_size = 64"

definition train_dataloader :: "sample list \<Rightarrow> DataLoader" where
  "train_dataloader training_data = \<lparr>dataset = training_data, dl_batch_size = batch_size\<rparr>"

definition test_dataloader :: "sample list \<Rightarrow> DataLoader" where
  "test_dataloader test_data = \<lparr>dataset = test_data, dl_batch_size = batch_size\<rparr>"

definition loss_fn :: "tensor \<Rightarrow> int list \<Rightarrow> error + real" where
  "loss_fn = nn_CrossEntropyLoss"

text \<open>The state after \<^verbatim>\<open>model = NeuralNetwork()\<close> and the construction of the optimizer.\<close>

definition start :: "(nat \<Rightarrow> nat \<Rightarrow> real) \<Rightarrow> (string \<rightharpoonup> state_dict) \<Rightarrow> world" where
  "start init fs =
     \<lparr>model = NeuralNetwork_init init, optimizer = \<lparr>lr = 1 / 1000\<rparr>, trace = [], files = fs\<rparr>"

definition epochs :: nat where
  "epochs = 20"

text \<open>The body of \<^verbatim>\<open>for t in range(epochs)\<close>, and the loop over the values of \<open>t\<close>.\<close>

definition epoch ::
  "(NeuralNetwork \<Rightarrow> tensor \<Rightarrow> int list \<Rightarrow> gradient) \<Rightarrow> sample list \<Rightarrow> sample list \<Rightarrow>
   nat \<Rightarrow> world \<Rightarrow> error + world" where
  "epoch autograd training_data test_data t w =
     (case train autograd (train_dataloader training_data) loss_fn
             (w\<lparr>trace := trace w @ [Print (Epoch (t + 1))]\<rparr>) of
        Inl e \<Rightarrow> Inl e
      | Inr w' \<Rightarrow> test (test_dataloader test_data) loss_fn w')"

fun epoch_loop ::
  "(NeuralNetwork \<Rightarrow> tensor \<Rightarrow> int list \<Rightarrow> gradient) \<Rightarrow> sample list \<Rightarrow> sample list \<Rightarrow>
   nat list \<Rightarrow> world \<Rightarrow> error + world" where
  "epoch_loop autograd training_data test_data [] w = Inr w"
| "epoch_loop autograd training_data test_data (t # ts) w =
     (case epoch autograd training_data test_data t w of
        Inl e \<Rightarrow> Inl e
      | Inr w' \<Rightarrow> epoch_loop autograd training_data test_data ts w')"

definition cell_train ::
  "(NeuralNetwork \<Rightarrow> tensor \<Rightarrow> int list \<Rightarrow> gradient) \<Rightarrow> sample list \<Rightarrow> sample list \<Rightarrow>
   world \<Rightarrow> error + world" where
  "cell_train autograd training_data test_data w =
     (case epoch_loop autograd training_data test_data [0..<epochs] w of
        Inl e \<Rightarrow> Inl e
      | Inr w' \<Rightarrow> Inr (w'\<lparr>trace := trace w' @ [Print Done]\<rparr>))"

text \<open>
  The file name is the Python literal \<^verbatim>\<open>".\model"\<close>: a dot, a backslash (which starts no
  escape sequence before \<^verbatim>\<open>m\<close>) and \<^verbatim>\<open>model\<close>. \<^verbatim>\<open>torch.save\<close> writes the object to that
  file; \<^verbatim>\<open>torch.load\<close> reads it back and raises when there is no such file.
\<close>

definition model_path :: string where
  "model_path = [CHR ''.'', CHR 0x5C] @ ''model''"

definition torch_save :: "state_dict \<Rightarrow> string \<Rightarrow> (string \<rightharpoonup> state_dict) \<Rightarrow> (string \<rightharpoonup> state_dict)" where
  "torch_save obj f fs = fs(f \<mapsto> obj)"

definition torch_load :: "string \<Rightarrow> (string \<rightharpoonup> state_dict) \<Rightarrow> error + state_dict" where
  "torch_load f fs = (case fs f of None \<Rightarrow> Inl FileNotFoundError | Some obj \<Rightarrow> Inr obj)"

definition cell_save :: "world \<Rightarrow> world" where
  "cell_save w =
     w\<lparr>files := torch_save (state_dict (model w)) model_path (files w),
       trace := trace w @ [Print (Saved model_path)]\<rparr>"

text \<open>The loading cell binds \<open>model\<close> to a new network and loads the file into it.\<close>

definition cell_load :: "(nat \<Rightarrow> nat \<Rightarrow> real) \<Rightarrow> world \<Rightarrow> error + world" where
  "cell_load init w =
     (case torch_load model_path (files w) of
        Inl e \<Rightarrow> Inl e
      | Inr sd \<Rightarrow>
          (case load_state_dict (NeuralNetwork_init init) sd of
             Inl e \<Rightarrow> Inl e
           | Inr m \<Rightarrow> Inr (w\<lparr>model := m\<rparr>)))"

definition classes :: "string list" where
  "classes =
     [''T-shirt/top'', ''Trouser'', ''Pullover'', ''Dress'', ''Coat'',
      ''Sandal'', ''Shirt'', ''Sneaker'', ''Bag'', ''Ankle boot'']"

text \<open>
  The prediction cell: \<^verbatim>\<open>test_data[0]\<close> raises on an empty dataset; the image is passed
  to the model as it is, without a batch dimension in front.
\<close>

definition cell_predict :: "sample list \<Rightarrow> world \<Rightarrow> error + world" where
  "cell_predict test_data w =
     (let m = model_eval (model w)
      in case list_get test_data 0 of
           Inl e \<Rightarrow> Inl e
         | Inr (x, y) \<Rightarrow>
        (case forward m x of
           Inl e \<Rightarrow> Inl e
         | Inr pred \<Rightarrow>
        (case tensor_get pred 0 of
           Inl e \<Rightarrow> Inl e
         | Inr p0 \<Rightarrow>
        (case argmax0 p0 of
           Inl e \<Rightarrow> Inl e
         | Inr k \<Rightarrow>
        (case list_get classes (int k) of
           Inl e \<Rightarrow> Inl e
         | Inr predicted \<Rightarrow>
        (case list_get classes y of
           Inl e \<Rightarrow> Inl e
         | Inr actual \<Rightarrow>
             Inr (w\<lparr>model := m, trace := trace w @ [Print (Predicted predicted actual)]\<rparr>)))))))"

text \<open>The cells in the order of the notebook.\<close>

definition notebook ::
  "(NeuralNetwork \<Rightarrow> tensor \<Rightarrow> int list \<Rightarrow> gradient) \<Rightarrow> (nat \<Rightarrow> nat \<Rightarrow> real) \<Rightarrow> (nat \<Rightarrow> nat \<Rightarrow> real) \<Rightarrow>
   sample list \<Rightarrow> sample list \<Rightarrow> (string \<rightharpoonup> state_dict) \<Rightarrow> error + world" where
  "notebook autograd init init' training_data test_data fs =
     (case cell_train autograd training_data test_data (start init fs) of
        Inl e \<Rightarrow> Inl e
      | Inr w \<Rightarrow>
          (case cell_load init' (cell_save w) of
             Inl e \<Rightarrow> Inl e
           | Inr w' \<Rightarrow> cell_predict test_data w'))"

section \<open>The vocabulary of the statements\<close>

subsection \<open>Well-shaped networks and data\<close>

text \<open>
  What the constructors of the library establish and the program keeps: every linear
  layer holds a weight and a bias of its declared shape (\<open>Linear_ok\<close>), and the network is
  the stack of the class definition, written as the list of the dimensions of its linear
  layers with \<open>None\<close> for a ReLU (\<open>architecture\<close>, \<open>NeuralNetwork_ok\<close>). \<open>widths\<close> follows the
  width of a row through such a list.
\<close>

definition Linear_ok :: "Linear \<Rightarrow> bool" where
  "Linear_ok l \<longleftrightarrow>
     shape (weight l) = [out_features l, in_features l] \<and>
     length (data (weight l)) = out_features l * in_features l \<and>
     shape (bias l) = [out_features l] \<and>
     length (data (bias l)) = out_features l"

fun module_ok :: "module \<Rightarrow> bool" where
  "module_ok (Lin l) = Linear_ok l"
| "module_ok ReLU = True"

fun module_dims :: "module \<Rightarrow> (nat \<times> nat) option" where
  "module_dims (Lin l) = Some (in_features l, out_features l)"
| "module_dims ReLU = None"

definition architecture :: "NeuralNetwork \<Rightarrow> (nat \<times> nat) option list" where
  "architecture self = map module_dims (linear_relu_stack self)"

definition NeuralNetwork_ok :: "NeuralNetwork \<Rightarrow> bool" where
  "NeuralNetwork_ok self \<longleftrightarrow>
     architecture self =
       [Some (784, 1024), None, Some (1024, 1024), None, Some (1024, 512), None, Some (512, 10)] \<and>
     list_all module_ok (linear_relu_stack self)"

fun widths :: "nat \<Rightarrow> (nat \<times> nat) option list \<Rightarrow> nat option" where
  "widths k [] = Some k"
| "widths k (None # ds) = widths k ds"
| "widths k (Some (i, out) # ds) = (if i = k then widths out ds else None)"

text \<open>
  A sample of the dataset is a 28 by 28 image with one channel and a label from 0 to 9.
\<close>

definition image_ok :: "tensor \<Rightarrow> bool" where
  "image_ok x \<longleftrightarrow> shape x = [1, 28, 28] \<and> length (data x) = 784"

definition sample_ok :: "sample \<Rightarrow> bool" where
  "sample_ok s \<longleftrightarrow> image_ok (fst s) \<and> 0 \<le> snd s \<and> snd s < 10"

subsection \<open>The network on one image\<close>

text \<open>
  \<open>stack_row\<close> is the stack of layers on a single flattened image and \<open>logits\<close> the output
  of the network for one image. \<open>predicted_class\<close> is the class that the prediction cell
  computes for an image, \<^verbatim>\<open>model(x)[0].argmax(0)\<close>, and a sample is \<open>correct\<close> when that
  class is its label (\<open>the_class\<close> names the class where there is one). \<open>batch_loss\<close> is
  the mean of the losses of the samples of a list.
\<close>

fun module_row :: "module \<Rightarrow> real list \<Rightarrow> real list" where
  "module_row (Lin l) r = linear_row l r"
| "module_row ReLU r = map relu r"

definition stack_row :: "module list \<Rightarrow> real list \<Rightarrow> real list" where
  "stack_row ms r = fold module_row ms r"

definition logits :: "NeuralNetwork \<Rightarrow> tensor \<Rightarrow> real list" where
  "logits self x = stack_row (linear_relu_stack self) (data x)"

definition predicted_class :: "NeuralNetwork \<Rightarrow> tensor \<Rightarrow> error + nat" where
  "predicted_class self x =
     (case forward self x of
        Inl e \<Rightarrow> Inl e
      | Inr pred \<Rightarrow> (case tensor_get pred 0 of Inl e \<Rightarrow> Inl e | Inr p0 \<Rightarrow> argmax0 p0))"

definition correct :: "NeuralNetwork \<Rightarrow> sample \<Rightarrow> bool" where
  "correct self s \<longleftrightarrow> predicted_class self (fst s) = Inr (nat (snd s)) \<and> 0 \<le> snd s"

definition the_class :: "NeuralNetwork \<Rightarrow> tensor \<Rightarrow> nat" where
  "the_class self x = (case predicted_class self x of Inl e \<Rightarrow> 0 | Inr k \<Rightarrow> k)"

definition batch_loss :: "NeuralNetwork \<Rightarrow> sample list \<Rightarrow> real" where
  "batch_loss self b = sum_list (map (\<lambda>s. nll (logits self (fst s)) (snd s)) b) / real (length b)"

subsection \<open>Traces\<close>

text \<open>
  To compare traces, \<open>erase\<close> forgets the numbers of a printed loss line and of a printed
  test line. \<open>epoch_marks n t\<close> is the erased trace of epoch \<open>t\<close> over \<open>n\<close> training batches:
  the header, for each batch in order its step and (every 100th batch) a loss line, and the
  line of \<^verbatim>\<open>test\<close>.
\<close>

fun erase :: "event \<Rightarrow> event" where
  "erase (Print (Loss l c s)) = Print (Loss 0 0 0)"
| "erase (Print (TestError a l)) = Print (TestError 0 0)"
| "erase e = e"

fun is_Step :: "event \<Rightarrow> bool" where
  "is_Step (Step b) = True"
| "is_Step (Print p) = False"

definition batch_marks :: "nat \<Rightarrow> event list" where
  "batch_marks b = Step b # (if b mod 100 = 0 then [Print (Loss 0 0 0)] else [])"

definition train_marks :: "nat \<Rightarrow> nat \<Rightarrow> event list" where
  "train_marks i n = concat (map batch_marks [i..<i + n])"

definition epoch_marks :: "nat \<Rightarrow> nat \<Rightarrow> event list" where
  "epoch_marks n t = Print (Epoch (t + 1)) # train_marks 0 n @ [Print (TestError 0 0)]"

subsection \<open>Example data\<close>

text \<open>An all-black image, and the batch that holds this image alone.\<close>

definition blank_image :: tensor where
  "blank_image = Tensor [1, 28, 28] (replicate 784 0)"

definition blank_batch :: tensor where
  "blank_batch = Tensor [1, 1, 28, 28] (data blank_image)"

section \<open>Rows of a tensor\<close>

lemma length_rows [simp]: "length (rows n k xs) = n"
  by (simp add: rows_def)

lemma rows_0 [simp]: "rows 0 k xs = []"
  by (simp add: rows_def)

lemma rows_Suc_append:
  "length r = k \<Longrightarrow> rows (Suc n) k (r @ xs) = r # rows n k xs"
  by (simp add: rows_def upt_conv_Cons map_Suc_upt [symmetric] del: upt_Suc)

lemma rows_concat:
  "\<forall>r\<in>set rs. length r = k \<Longrightarrow> length rs = n \<Longrightarrow> rows n k (concat rs) = rs"
  by (induction rs arbitrary: n) (auto simp add: rows_Suc_append)

lemma concat_rows:
  "length xs = n * k \<Longrightarrow> concat (rows n k xs) = xs"
proof (induction n arbitrary: xs)
  case 0 then show ?case by simp
next
  case (Suc n)
  have "rows (Suc n) k (take k xs @ drop k xs) = take k xs # rows n k (drop k xs)"
    using Suc.prems by (intro rows_Suc_append) simp
  then show ?case using Suc by simp
qed

lemma length_in_rows:
  assumes "length xs = n * k" "r \<in> set (rows n k xs)"
  shows "length r = k"
proof -
  from assms(2) obtain i where i: "i < n" and r: "r = take k (drop (i * k) xs)"
    by (auto simp add: rows_def)
  have "Suc i * k \<le> n * k" using i by (intro mult_le_mono1) simp
  then have "k \<le> n * k - i * k" by simp
  then show ?thesis using assms(1) r by simp
qed

section \<open>The network on rows\<close>

lemma length_linear_row:
  "Linear_ok l \<Longrightarrow> length (linear_row l r) = out_features l"
  by (simp add: linear_row_def Linear_ok_def)

lemma Linear_forward_rows:
  assumes "in_features l = k" "length rs = n" "\<forall>r\<in>set rs. length r = k"
  shows "Linear_forward l (Tensor [n, k] (concat rs)) =
           Inr (Tensor [n, out_features l] (concat (map (linear_row l) rs)))"
  using assms by (simp add: Linear_forward_def rows_concat)

lemma Sequential_forward_rows:
  assumes "list_all module_ok ms" "widths k (map module_dims ms) = Some k'"
    "length rs = n" "\<forall>r\<in>set rs. length r = k"
  shows "Sequential_forward ms (Tensor [n, k] (concat rs)) =
           Inr (Tensor [n, k'] (concat (map (stack_row ms) rs))) \<and>
         (\<forall>r\<in>set rs. length (stack_row ms r) = k')"
  using assms
proof (induction ms arbitrary: k rs)
  case Nil
  then show ?case by (simp add: stack_row_def)
next
  case (Cons md ms)
  show ?case
  proof (cases md)
    case (Lin l)
    with Cons.prems have l: "in_features l = k" "Linear_ok l"
      and w: "widths (out_features l) (map module_dims ms) = Some k'"
      and ok: "list_all module_ok ms"
      by (auto split: if_splits)
    have len: "\<forall>r\<in>set (map (linear_row l) rs). length r = out_features l"
      using l by (simp add: length_linear_row)
    have "length (map (linear_row l) rs) = n" using Cons.prems by simp
    from Cons.IH [OF ok w this len] Linear_forward_rows [OF l(1) Cons.prems(3,4)]
    show ?thesis using Lin by (simp add: stack_row_def comp_def)
  next
    case ReLU
    with Cons.prems have w: "widths k (map module_dims ms) = Some k'"
      and ok: "list_all module_ok ms" by auto
    have len: "\<forall>r\<in>set (map (map relu) rs). length r = k" using Cons.prems by simp
    have "length (map (map relu) rs) = n" using Cons.prems by simp
    from Cons.IH [OF ok w this len]
    show ?thesis using ReLU by (simp add: stack_row_def comp_def map_concat nn_ReLU_def)
  qed
qed

lemma NeuralNetwork_ok_widths:
  "NeuralNetwork_ok m \<Longrightarrow> widths 784 (map module_dims (linear_relu_stack m)) = Some 10"
  by (simp add: NeuralNetwork_ok_def architecture_def)

lemma forward_rows:
  assumes "NeuralNetwork_ok m" "shape x = n # d # ds" "prod_list (d # ds) = 784"
    "length (data x) = n * 784"
  shows "forward m x =
           Inr (Tensor [n, 10] (concat (map (stack_row (linear_relu_stack m)) (rows n 784 (data x)))))"
proof -
  let ?rs = "rows n 784 (data x)"
  have x: "x = Tensor (n # d # ds) (concat ?rs)"
    using assms(2,4) by (cases x) (simp add: concat_rows)
  have f: "nn_Flatten x = Inr (Tensor [n, 784] (concat ?rs))"
    using assms(3) by (subst x) (simp del: prod_list.Cons)
  have ok: "list_all module_ok (linear_relu_stack m)"
    using assms(1) by (simp add: NeuralNetwork_ok_def)
  have len: "\<forall>r\<in>set ?rs. length r = 784"
    using assms(4) by (auto dest: length_in_rows)
  from Sequential_forward_rows [OF ok NeuralNetwork_ok_widths [OF assms(1)] length_rows len]
  show ?thesis by (simp add: forward_def f)
qed

lemma length_net_row:
  assumes "NeuralNetwork_ok m" "length r = 784"
  shows "length (stack_row (linear_relu_stack m) r) = 10"
proof -
  have ok: "list_all module_ok (linear_relu_stack m)"
    using assms(1) by (simp add: NeuralNetwork_ok_def)
  from Sequential_forward_rows [OF ok NeuralNetwork_ok_widths [OF assms(1)], of "[r]" 1]
  show ?thesis using assms(2) by simp
qed

section \<open>What the constructors establish and the updates keep\<close>

lemma nn_Linear_features [simp]:
  "in_features (nn_Linear i out w0 b0) = i" "out_features (nn_Linear i out w0 b0) = out"
  by (simp_all add: nn_Linear_def)

lemma Linear_ok_nn_Linear [simp]: "Linear_ok (nn_Linear i out w0 b0)"
  by (simp add: Linear_ok_def nn_Linear_def)

lemma NeuralNetwork_ok_init [simp]: "NeuralNetwork_ok (NeuralNetwork_init init)"
  by (simp add: NeuralNetwork_ok_def architecture_def NeuralNetwork_init_def)

lemma module_dims_Some: "module_dims md = Some (i, out) \<longleftrightarrow> (\<exists>l. md = Lin l \<and> in_features l = i \<and> out_features l = out)"
  by (cases md) auto

lemma module_dims_None: "module_dims md = None \<longleftrightarrow> md = ReLU"
  by (cases md) auto

lemma NeuralNetwork_ok_stack:
  assumes "NeuralNetwork_ok m"
  obtains a b c d where
    "linear_relu_stack m = [Lin a, ReLU, Lin b, ReLU, Lin c, ReLU, Lin d]"
    "in_features a = 784" "out_features a = 1024" "Linear_ok a"
    "in_features b = 1024" "out_features b = 1024" "Linear_ok b"
    "in_features c = 1024" "out_features c = 512" "Linear_ok c"
    "in_features d = 512" "out_features d = 10" "Linear_ok d"
  using assms unfolding NeuralNetwork_ok_def architecture_def
  by (auto simp add: map_eq_Cons_conv module_dims_Some module_dims_None)

lemma shape_sgd_update [simp]: "shape (sgd_update eta g p) = shape p"
  by (simp add: sgd_update_def)

lemma length_sgd_update [simp]: "length (data (sgd_update eta g p)) = length (data p)"
  by (simp add: sgd_update_def)

lemma module_dims_step [simp]: "module_dims (module_step eta g (i, md)) = module_dims md"
  by (cases md) simp_all

lemma module_ok_step [simp]: "module_ok (module_step eta g (i, md)) = module_ok md"
  by (cases md) (simp_all add: Linear_ok_def)

lemma map_dims_step:
  "map (\<lambda>p. module_dims (module_step eta g p)) (enumerate n ms) = map module_dims ms"
  by (induction ms arbitrary: n) simp_all

lemma list_all_ok_step:
  "list_all (\<lambda>p. module_ok (module_step eta g p)) (enumerate n ms) = list_all module_ok ms"
  by (induction ms arbitrary: n) simp_all

lemma NeuralNetwork_ok_cong:
  "linear_relu_stack m' = linear_relu_stack m \<Longrightarrow> NeuralNetwork_ok m' = NeuralNetwork_ok m"
  by (simp add: NeuralNetwork_ok_def architecture_def)

lemma NeuralNetwork_ok_optimizer_step [simp]:
  "NeuralNetwork_ok (optimizer_step opt m) = NeuralNetwork_ok m"
  by (simp add: optimizer_step_def NeuralNetwork_ok_def architecture_def map_dims_step
      list_all_ok_step list.pred_map comp_def split: option.splits)

lemma stack_simps [simp]:
  "linear_relu_stack (model_train m) = linear_relu_stack m"
  "linear_relu_stack (model_eval m) = linear_relu_stack m"
  "linear_relu_stack (loss_backward g m) = linear_relu_stack m"
  "linear_relu_stack (optimizer_zero_grad m) = linear_relu_stack m"
  by (simp_all add: model_train_def model_eval_def loss_backward_def optimizer_zero_grad_def)

lemma NeuralNetwork_ok_simps [simp]:
  "NeuralNetwork_ok (model_train m) = NeuralNetwork_ok m"
  "NeuralNetwork_ok (model_eval m) = NeuralNetwork_ok m"
  "NeuralNetwork_ok (loss_backward g m) = NeuralNetwork_ok m"
  "NeuralNetwork_ok (optimizer_zero_grad m) = NeuralNetwork_ok m"
  by (rule NeuralNetwork_ok_cong, simp)+

section \<open>The parameter dictionary\<close>

lemma forward_cong:
  "linear_relu_stack m' = linear_relu_stack m \<Longrightarrow> forward m' x = forward m x"
  by (simp add: forward_def split: sum.splits)

lemma state_dict_cong:
  "linear_relu_stack m' = linear_relu_stack m \<Longrightarrow> state_dict m' = state_dict m"
  by (simp add: state_dict_def)

lemma state_dict_stack:
  "linear_relu_stack m = [Lin a, ReLU, Lin b, ReLU, Lin c, ReLU, Lin d] \<Longrightarrow>
   state_dict m =
     [(Weight 0, weight a), (Bias 0, bias a), (Weight 2, weight b), (Bias 2, bias b),
      (Weight 4, weight c), (Bias 4, bias c), (Weight 6, weight d), (Bias 6, bias d)]"
  by (simp add: state_dict_def eval_nat_numeral)

lemma Linear_eqI:
  "in_features l = in_features l' \<Longrightarrow> out_features l = out_features l' \<Longrightarrow>
   l\<lparr>weight := weight l', bias := bias l'\<rparr> = (l' :: Linear)"
  by (cases l, cases l') simp

lemma load_state_dict_roundtrip:
  assumes "NeuralNetwork_ok m" "NeuralNetwork_ok m0"
  shows "load_state_dict m0 (state_dict m) =
           Inr (m0\<lparr>linear_relu_stack := linear_relu_stack m\<rparr>)"
proof -
  from assms(1) obtain a b c d where m:
    "linear_relu_stack m = [Lin a, ReLU, Lin b, ReLU, Lin c, ReLU, Lin d]"
    "in_features a = 784" "out_features a = 1024" "Linear_ok a"
    "in_features b = 1024" "out_features b = 1024" "Linear_ok b"
    "in_features c = 1024" "out_features c = 512" "Linear_ok c"
    "in_features d = 512" "out_features d = 10" "Linear_ok d"
    by (rule NeuralNetwork_ok_stack)
  from assms(2) obtain a0 b0 c0 d0 where m0:
    "linear_relu_stack m0 = [Lin a0, ReLU, Lin b0, ReLU, Lin c0, ReLU, Lin d0]"
    "in_features a0 = 784" "out_features a0 = 1024" "Linear_ok a0"
    "in_features b0 = 1024" "out_features b0 = 1024" "Linear_ok b0"
    "in_features c0 = 1024" "out_features c0 = 512" "Linear_ok c0"
    "in_features d0 = 512" "out_features d0 = 10" "Linear_ok d0"
    by (rule NeuralNetwork_ok_stack)
  have sd: "state_dict m =
     [(Weight 0, weight a), (Bias 0, bias a), (Weight 2, weight b), (Bias 2, bias b),
      (Weight 4, weight c), (Bias 4, bias c), (Weight 6, weight d), (Bias 6, bias d)]"
    by (rule state_dict_stack [OF m(1)])
  have sd0: "state_dict m0 =
     [(Weight 0, weight a0), (Bias 0, bias a0), (Weight 2, weight b0), (Bias 2, bias b0),
      (Weight 4, weight c0), (Bias 4, bias c0), (Weight 6, weight d0), (Bias 6, bias d0)]"
    by (rule state_dict_stack [OF m0(1)])
  have keys: "set (map fst (state_dict m)) = set (map fst (state_dict m0))"
    unfolding sd sd0 by simp
  have shapes: "list_all (\<lambda>(k, t). case map_of (state_dict m) k of
                               Some t' \<Rightarrow> shape t' = shape t
                             | None \<Rightarrow> False) (state_dict m0)"
    using m(4,7,10,13) m0(4,7,10,13) m(2,3,5,6,8,9,11,12) m0(2,3,5,6,8,9,11,12)
    unfolding sd sd0 by (simp add: Linear_ok_def)
  have stack: "map (load_module (map_of (state_dict m))) (enumerate 0 (linear_relu_stack m0)) =
      linear_relu_stack m"
    using m(2,3,5,6,8,9,11,12) m0(2,3,5,6,8,9,11,12)
    unfolding sd m(1) m0(1) by (simp add: eval_nat_numeral Linear_eqI)
  show ?thesis
    using keys shapes stack by (simp add: load_state_dict_def)
qed

section \<open>Single images and the prediction cell\<close>

lemma argmax_from_bound:
  "best < i \<Longrightarrow> argmax_from best v i xs < i + length xs"
proof (induction xs arbitrary: best v i)
  case Nil
  then show ?case by simp
next
  case (Cons a xs)
  have "argmax_from i a (Suc i) xs < Suc i + length xs"
    by (rule Cons.IH) simp
  moreover have "argmax_from best v (Suc i) xs < Suc i + length xs"
    using Cons.prems by (intro Cons.IH) simp
  ultimately show ?case by simp
qed

lemma argmax_row_bound:
  "xs \<noteq> [] \<Longrightarrow> \<exists>k. argmax_row xs = Inr k \<and> k < length xs"
  using argmax_from_bound [of 0 1 _ "tl xs"]
  by (cases xs) (auto simp add: argmax_row_def)

lemma Linear_forward_2d:
  "in_features l = k \<Longrightarrow>
   Linear_forward l (Tensor [n, k] xs) =
     Inr (Tensor [n, out_features l] (concat (map (linear_row l) (rows n k xs))))"
  by (simp add: Linear_forward_def)

lemma forward_image:
  assumes "NeuralNetwork_ok m" "image_ok x"
  shows "forward m x = Inr (Tensor [1, 10] (stack_row (linear_relu_stack m) (data x)))"
    and "length (stack_row (linear_relu_stack m) (data x)) = 10"
proof -
  have r: "rows 1 784 (data x) = [data x]"
    using assms(2) rows_concat [of "[data x]" 784 1] by (simp add: image_ok_def)
  have "forward m x =
      Inr (Tensor [1, 10] (concat (map (stack_row (linear_relu_stack m)) (rows 1 784 (data x)))))"
    using assms(2) by (intro forward_rows [OF assms(1), of x 1 28 "[28]"]) (simp_all add: image_ok_def)
  then show "forward m x = Inr (Tensor [1, 10] (stack_row (linear_relu_stack m) (data x)))"
    using r by simp
  show "length (stack_row (linear_relu_stack m) (data x)) = 10"
    using assms by (intro length_net_row) (simp_all add: image_ok_def)
qed

lemma length_classes [simp]: "length classes = 10"
  by (simp add: classes_def)

lemma list_get_classes:
  "0 \<le> i \<Longrightarrow> i < 10 \<Longrightarrow> list_get classes i = Inr (classes ! nat i)"
  by (simp add: list_get_def Let_def)

lemma cell_predict_ok:
  assumes "NeuralNetwork_ok (model w)" "image_ok x" "0 \<le> y" "y < 10"
  shows "length classes = 10 \<and>
         (\<exists>pred p0 k.
            forward (model_eval (model w)) x = Inr pred \<and> shape pred = [1, 10] \<and>
            tensor_get pred 0 = Inr p0 \<and> shape p0 = [10] \<and>
            argmax0 p0 = Inr k \<and> k < 10 \<and>
            list_get classes (int k) = Inr (classes ! k) \<and>
            list_get classes y = Inr (classes ! nat y) \<and>
            cell_predict ((x, y) # test_data) w =
              Inr (w\<lparr>model := model_eval (model w),
                     trace := trace w @ [Print (Predicted (classes ! k) (classes ! nat y))]\<rparr>))"
proof -
  let ?m = "model_eval (model w)"
  let ?r = "stack_row (linear_relu_stack (model w)) (data x)"
  have ok: "NeuralNetwork_ok ?m" using assms(1) by simp
  have fw: "forward ?m x = Inr (Tensor [1, 10] ?r)" and len: "length ?r = 10"
    using forward_image [OF ok assms(2)] by simp_all
  have get: "tensor_get (Tensor [1, 10] ?r) 0 = Inr (Tensor [10] ?r)"
    using len by (simp add: tensor_get_def)
  from len have "?r \<noteq> []" by auto
  from argmax_row_bound [OF this] len obtain k where
    k: "argmax_row ?r = Inr k" "k < 10" by auto
  have am: "argmax0 (Tensor [10] ?r) = Inr k"
    using k by (simp add: argmax0_def)
  have c1: "list_get classes (int k) = Inr (classes ! k)"
    using k(2) list_get_classes [of "int k"] by simp
  have c2: "list_get classes y = Inr (classes ! nat y)"
    using assms(3,4) by (rule list_get_classes)
  have cell: "cell_predict ((x, y) # test_data) w =
      Inr (w\<lparr>model := ?m, trace := trace w @ [Print (Predicted (classes ! k) (classes ! nat y))]\<rparr>)"
    using fw get am c1 c2 by (simp add: cell_predict_def Let_def list_get_def [of "_ # _"])
  show ?thesis
    using fw get am k(2) c1 c2 cell by simp
qed

lemma length_concat_linear_rows:
  "Linear_ok l \<Longrightarrow> length (concat (map (linear_row l) rs)) = length rs * out_features l"
  by (induction rs) (simp_all add: length_linear_row)

section \<open>Data loaders\<close>

lemma chunks_Nil [simp]: "chunks n [] = []"
  by (simp add: chunks.simps)

lemma chunks_0 [simp]: "chunks 0 xs = []"
  by (simp add: chunks.simps)

lemma chunks_step:
  "0 < n \<Longrightarrow> xs \<noteq> [] \<Longrightarrow> chunks n xs = take n xs # chunks n (drop n xs)"
  by (subst chunks.simps) simp

lemma concat_chunks: "0 < n \<Longrightarrow> concat (chunks n xs) = xs"
proof (induction n xs rule: chunks.induct)
  case (1 n xs)
  then show ?case by (cases "xs = []") (simp_all add: chunks_step)
qed

lemma in_chunks:
  "b \<in> set (chunks n xs) \<Longrightarrow> b \<noteq> [] \<and> length b \<le> n \<and> set b \<subseteq> set xs"
proof (induction n xs rule: chunks.induct)
  case (1 n xs)
  show ?case
  proof (cases "n = 0 \<or> xs = []")
    case True
    with 1 show ?thesis by auto
  next
    case False
    then have "chunks n xs = take n xs # chunks n (drop n xs)" by (simp add: chunks_step)
    with 1 False show ?thesis
      by (auto dest: in_set_takeD in_set_dropD)
  qed
qed

lemma ceil_div_step:
  assumes "0 < n" "n \<le> a"
  shows "(a + n - 1) div n = Suc ((a - 1) div n)"
proof -
  from assms obtain c where c: "a = Suc c" by (cases a) auto
  have "(a + n - 1) div n = (c + n) div n" by (simp add: c)
  also have "\<dots> = Suc (c div n)" using assms(1) by simp
  finally show ?thesis by (simp add: c)
qed

lemma ceil_div_small:
  assumes "0 < a" "a \<le> n"
  shows "(a + n - 1) div n = (1::nat)"
proof -
  from assms obtain c where c: "a = Suc c" by (cases a) auto
  have "(a + n - 1) div n = (c + n) div n" by (simp add: c)
  also have "\<dots> = Suc (c div n)" using assms c by simp
  also have "c div n = 0" using assms c by simp
  finally show ?thesis by simp
qed

lemma length_chunks: "0 < n \<Longrightarrow> length (chunks n xs) = (length xs + n - 1) div n"
proof (induction n xs rule: chunks.induct)
  case (1 n xs)
  show ?case
  proof (cases "xs = []")
    case True
    with 1 show ?thesis by simp
  next
    case False
    then have pos: "0 < length xs" by simp
    have IH: "length (chunks n (drop n xs)) = (length xs - n + n - 1) div n"
      using 1 False by simp
    have step: "length (chunks n xs) = Suc (length (chunks n (drop n xs)))"
      using False "1.prems" by (simp add: chunks_step)
    show ?thesis
    proof (cases "n \<le> length xs")
      case True
      then have "length xs - n + n - 1 = length xs - 1" by simp
      with IH have "length (chunks n (drop n xs)) = (length xs - 1) div n" by simp
      with step show ?thesis using ceil_div_step [OF "1.prems" True] by simp
    next
      case less: False
      then have "drop n xs = []" by simp
      with step have "length (chunks n xs) = 1" by simp
      moreover have "(length xs + n - 1) div n = 1"
        using less by (intro ceil_div_small pos) simp
      ultimately show ?thesis by simp
    qed
  qed
qed

lemma chunks_append_full:
  assumes "0 < n" "length xs = k * n"
  shows "chunks n (xs @ ys) = chunks n xs @ chunks n ys"
  using assms
proof (induction k arbitrary: xs)
  case 0
  then show ?case by simp
next
  case (Suc k)
  then have ne: "xs \<noteq> []" by auto
  have len: "length (drop n xs) = k * n" using Suc.prems by simp
  have "n \<le> length xs" using Suc.prems by simp
  then have t: "take n (xs @ ys) = take n xs" and d: "drop n (xs @ ys) = drop n xs @ ys"
    by simp_all
  have "chunks n (xs @ ys) = take n (xs @ ys) # chunks n (drop n (xs @ ys))"
    using Suc.prems(1) ne by (intro chunks_step) simp_all
  also have "\<dots> = take n xs # chunks n (drop n xs) @ chunks n ys"
    unfolding t d using Suc.IH [OF Suc.prems(1) len] by simp
  also have "\<dots> = chunks n xs @ chunks n ys"
    using chunks_step [OF Suc.prems(1) ne] by simp
  finally show ?case .
qed

lemma chunks_full:
  assumes "0 < n" "length xs = k * n"
  shows "length (chunks n xs) = k \<and> (\<forall>b\<in>set (chunks n xs). length b = n)"
  using assms
proof (induction k arbitrary: xs)
  case 0
  then show ?case by simp
next
  case (Suc k)
  then have ne: "xs \<noteq> []" by auto
  have len: "length (drop n xs) = k * n" using Suc.prems by simp
  have "n \<le> length xs" using Suc.prems by simp
  then have "length (take n xs) = n" by simp
  moreover have "chunks n xs = take n xs # chunks n (drop n xs)"
    using Suc.prems(1) ne by (rule chunks_step)
  ultimately show ?case
    using Suc.IH [OF Suc.prems(1) len] by simp
qed

lemma chunks_short:
  assumes "xs \<noteq> []" "length xs \<le> n"
  shows "chunks n xs = [xs]"
proof -
  have "0 < n" using assms by (cases n) auto
  then have "chunks n xs = take n xs # chunks n (drop n xs)"
    using assms(1) by (rule chunks_step)
  then show ?thesis using assms(2) by simp
qed

section \<open>Batches\<close>

lemma collate_ok:
  assumes "b \<noteq> []" "list_all sample_ok b"
  shows "collate b =
           Inr (Tensor [length b, 1, 28, 28] (concat (map (\<lambda>s. data (fst s)) b)), map snd b)"
proof -
  from assms(1) obtain s b' where b: "b = s # b'" by (cases b) auto
  have sh: "\<forall>u\<in>set b. shape (fst u) = [1, 28, 28]"
    using assms(2) by (auto simp add: list_all_iff sample_ok_def image_ok_def)
  then have "list_all (\<lambda>u. shape u = shape (fst s)) (map fst b)"
    by (simp add: list_all_iff b)
  moreover have "shape (fst s) = [1, 28, 28]" using sh by (simp add: b)
  ultimately show ?thesis
    unfolding collate_def stack_def by (simp add: b comp_def)
qed

lemma forward_batch:
  assumes "NeuralNetwork_ok m" "list_all sample_ok b"
  shows "forward m (Tensor [length b, 1, 28, 28] (concat (map (\<lambda>s. data (fst s)) b))) =
           Inr (Tensor [length b, 10] (concat (map (\<lambda>s. logits m (fst s)) b)))"
proof -
  let ?rs = "map (\<lambda>s. data (fst s)) b"
  have len: "\<forall>r\<in>set ?rs. length r = 784"
    using assms(2) by (auto simp add: list_all_iff sample_ok_def image_ok_def)
  then have total: "length (concat ?rs) = length b * 784"
    by (induction b) simp_all
  have r: "rows (length b) 784 (concat ?rs) = ?rs"
    using len by (intro rows_concat) simp_all
  have "forward m (Tensor [length b, 1, 28, 28] (concat ?rs)) =
      Inr (Tensor [length b, 10]
        (concat (map (stack_row (linear_relu_stack m)) (rows (length b) 784 (concat ?rs)))))"
    using total
      forward_rows [OF assms(1), of "Tensor [length b, 1, 28, 28] (concat ?rs)" "length b" 1 "[28, 28]"]
    by simp
  then show ?thesis by (simp add: r comp_def logits_def)
qed

lemma length_logits:
  "NeuralNetwork_ok m \<Longrightarrow> image_ok x \<Longrightarrow> length (logits m x) = 10"
  by (simp add: logits_def forward_image(2))

lemma predicted_class_logits:
  assumes "NeuralNetwork_ok m" "image_ok x"
  shows "predicted_class m x = argmax_row (logits m x)"
proof -
  have "tensor_get (Tensor [1, 10] (logits m x)) 0 = Inr (Tensor [10] (logits m x))"
    using length_logits [OF assms] by (simp add: tensor_get_def)
  then show ?thesis
    using forward_image(1) [OF assms]
    by (simp add: predicted_class_def logits_def argmax0_def)
qed

lemma CrossEntropyLoss_batch:
  assumes "NeuralNetwork_ok m" "b \<noteq> []" "list_all sample_ok b"
  shows "nn_CrossEntropyLoss (Tensor [length b, 10] (concat (map (\<lambda>s. logits m (fst s)) b)))
           (map snd b) = Inr (batch_loss m b)"
proof -
  let ?rs = "map (\<lambda>s. logits m (fst s)) b"
  have len: "\<forall>r\<in>set ?rs. length r = 10"
    using assms(1,3) by (auto simp add: list_all_iff sample_ok_def length_logits)
  have r: "rows (length b) 10 (concat ?rs) = ?rs"
    using len by (intro rows_concat) simp_all
  have lab: "list_all (\<lambda>t. 0 \<le> t \<and> t < int 10) (map snd b)"
    using assms(3) by (auto simp add: list_all_iff sample_ok_def)
  have z: "map2 nll ?rs (map snd b) = map (\<lambda>s. nll (logits m (fst s)) (snd s)) b"
    by (induction b) simp_all
  show ?thesis
    using assms(2) lab by (simp add: nn_CrossEntropyLoss_def r z batch_loss_def)
qed

lemma collect_map_Inr:
  "\<forall>x\<in>set xs. f x = Inr (g x) \<Longrightarrow> collect (map f xs) = Inr (map g xs)"
  by (induction xs) simp_all

lemma predicted_class_the_class:
  assumes "NeuralNetwork_ok m" "image_ok x"
  shows "predicted_class m x = Inr (the_class m x)"
proof -
  have "logits m x \<noteq> []" using length_logits [OF assms] by auto
  from argmax_row_bound [OF this] show ?thesis
    by (auto simp add: predicted_class_logits [OF assms] the_class_def)
qed

lemma argmax1_batch:
  assumes "NeuralNetwork_ok m" "list_all sample_ok b"
  shows "argmax1 (Tensor [length b, 10] (concat (map (\<lambda>s. logits m (fst s)) b))) =
           Inr (map (\<lambda>s. the_class m (fst s)) b)"
proof -
  let ?rs = "map (\<lambda>s. logits m (fst s)) b"
  have len: "\<forall>r\<in>set ?rs. length r = 10"
    using assms by (auto simp add: list_all_iff sample_ok_def length_logits)
  have r: "rows (length b) 10 (concat ?rs) = ?rs"
    using len by (intro rows_concat) simp_all
  have "\<forall>s\<in>set b. argmax_row (logits m (fst s)) = Inr (the_class m (fst s))"
    using assms predicted_class_the_class [OF assms(1)] predicted_class_logits [OF assms(1)]
    by (auto simp add: list_all_iff sample_ok_def)
  then have "collect (map (\<lambda>s. argmax_row (logits m (fst s))) b) =
      Inr (map (\<lambda>s. the_class m (fst s)) b)"
    by (rule collect_map_Inr)
  then show ?thesis by (simp add: argmax1_def r comp_def)
qed

lemma count_equal_batch:
  assumes "NeuralNetwork_ok m" "list_all sample_ok b"
  shows "count_equal (map (\<lambda>s. the_class m (fst s)) b) (map snd b) =
           Inr (real (length (filter (correct m) b)))"
proof -
  have c: "\<forall>s\<in>set b. correct m s \<longleftrightarrow> int (the_class m (fst s)) = snd s"
    using assms predicted_class_the_class [OF assms(1)]
    by (auto simp add: list_all_iff sample_ok_def correct_def)
  have "filter (\<lambda>(a, y). int a = y) (zip (map (\<lambda>s. the_class m (fst s)) b) (map snd b)) =
      map (\<lambda>s. (the_class m (fst s), snd s)) (filter (correct m) b)"
    using c by (induction b) auto
  then show ?thesis by (simp add: count_equal_def)
qed

section \<open>The function test\<close>

lemma logits_cong:
  "linear_relu_stack m' = linear_relu_stack m \<Longrightarrow> logits m' = logits m"
  by (simp add: logits_def fun_eq_iff)

lemma batch_loss_cong:
  "linear_relu_stack m' = linear_relu_stack m \<Longrightarrow> batch_loss m' = batch_loss m"
  using logits_cong [of m' m] by (simp add: batch_loss_def fun_eq_iff)

lemma correct_cong:
  "linear_relu_stack m' = linear_relu_stack m \<Longrightarrow> correct m' = correct m"
  using forward_cong [of m' m] by (simp add: correct_def predicted_class_def fun_eq_iff)

lemma test_loop_batches:
  assumes "NeuralNetwork_ok m" "\<forall>b\<in>set bs. b \<noteq> [] \<and> list_all sample_ok b"
  shows "test_loop loss_fn m (map collate bs) acc =
           Inr (fst acc + sum_list (map (batch_loss m) bs),
                snd acc + real (length (filter (correct m) (concat bs))))"
  using assms(2)
proof (induction bs arbitrary: acc)
  case Nil
  then show ?case by simp
next
  case (Cons b bs)
  then have b: "b \<noteq> []" "list_all sample_ok b" by simp_all
  have IH: "\<And>acc. test_loop loss_fn m (map collate bs) acc =
      Inr (fst acc + sum_list (map (batch_loss m) bs),
           snd acc + real (length (filter (correct m) (concat bs))))"
    using Cons by simp
  show ?case
    using collate_ok [OF b] forward_batch [OF assms(1) b(2)]
        CrossEntropyLoss_batch [OF assms(1) b] argmax1_batch [OF assms(1) b(2)]
        count_equal_batch [OF assms(1) b(2)]
    by (simp add: loss_fn_def IH [unfolded loss_fn_def])
qed

lemma chunks_sample_ok:
  assumes "list_all sample_ok ds"
  shows "\<forall>b\<in>set (chunks n ds). b \<noteq> [] \<and> list_all sample_ok b"
  using assms in_chunks [of _ n ds] by (auto simp add: list_all_iff)

lemma DataLoader_len_chunks:
  "0 < n \<Longrightarrow> DataLoader_len \<lparr>dataset = ds, dl_batch_size = n\<rparr> = length (chunks n ds)"
  by (simp add: DataLoader_len_def length_chunks)

lemma chunks_nonempty: "0 < n \<Longrightarrow> ds \<noteq> [] \<Longrightarrow> chunks n ds \<noteq> []"
  using chunks_step [of n ds] by simp

lemma test_returns:
  assumes "NeuralNetwork_ok (model w)" "list_all sample_ok ds" "ds \<noteq> []" "0 < n"
  shows "test \<lparr>dataset = ds, dl_batch_size = n\<rparr> loss_fn w =
           Inr (w\<lparr>model := model_eval (model w),
                  trace := trace w @
                    [Print (TestError
                       (100 * (real (length (filter (correct (model w)) ds)) / real (length ds)))
                       (sum_list (map (batch_loss (model w)) (chunks n ds)) /
                          real (length (chunks n ds))))]\<rparr>)"
proof -
  let ?m = "model_eval (model w)"
  have ok: "NeuralNetwork_ok ?m" using assms(1) by simp
  have st: "linear_relu_stack ?m = linear_relu_stack (model w)" by simp
  have loop: "test_loop loss_fn ?m (map collate (chunks n ds)) (0, 0) =
      Inr (sum_list (map (batch_loss (model w)) (chunks n ds)),
           real (length (filter (correct (model w)) ds)))"
    using test_loop_batches [OF ok chunks_sample_ok [OF assms(2)], of n "(0, 0)"]
    by (simp add: concat_chunks [OF assms(4)] batch_loss_cong [OF st] correct_cong [OF st])
  have nb: "length (chunks n ds) \<noteq> 0"
    using chunks_nonempty [OF assms(4,3)] by simp
  show ?thesis
    using nb assms(3)
    by (simp add: test_def Let_def DataLoader_iter_def DataLoader_len_chunks [OF assms(4)] loop)
qed

lemma test_frame:
  assumes "test dl lf w = Inr w'"
  shows "linear_relu_stack (model w') = linear_relu_stack (model w) \<and>
         grad (model w') = grad (model w) \<and> optimizer w' = optimizer w \<and> files w' = files w"
proof (cases "test_loop lf (model_eval (model w)) (DataLoader_iter dl) (0, 0)")
  case (Inl e)
  with assms show ?thesis by (simp add: test_def Let_def)
next
  case (Inr r)
  with assms show ?thesis
    by (cases r) (auto simp add: test_def Let_def model_eval_def split: if_splits)
qed

lemma image_ok_blank [simp]: "image_ok blank_image"
  by (simp add: image_ok_def blank_image_def)

lemma sample_ok_blank [simp]: "sample_ok (blank_image, 9)"
  by (simp add: sample_ok_def)

lemma list_all_replicate_ok: "P x \<Longrightarrow> list_all P (replicate n x)"
  by (simp add: list_all_iff)

lemma batch_collated:
  assumes "NeuralNetwork_ok m" "b \<noteq> []" "list_all sample_ok b"
  shows "\<exists>X y pred. collate b = Inr (X, y) \<and> forward m X = Inr pred \<and>
           loss_fn pred y = Inr (batch_loss m b)"
  using collate_ok [OF assms(2,3)] forward_batch [OF assms(1,3)]
    CrossEntropyLoss_batch [OF assms] by (simp add: loss_fn_def)

lemma cell_predict_frame:
  assumes "cell_predict test_data w = Inr w'"
  shows "linear_relu_stack (model w') = linear_relu_stack (model w) \<and>
         grad (model w') = grad (model w) \<and> optimizer w' = optimizer w \<and> files w' = files w"
  using assms
  by (auto simp add: cell_predict_def Let_def model_eval_def split: sum.splits prod.splits)

section \<open>Partial batches\<close>

lemma chunks_last_partial:
  assumes "0 < n" "length xs = k * n + r" "0 < r" "r \<le> n"
  shows "chunks n xs = chunks n (take (k * n) xs) @ [drop (k * n) xs]"
    and "length (chunks n (take (k * n) xs)) = k"
    and "\<forall>b\<in>set (chunks n (take (k * n) xs)). length b = n"
    and "length (drop (k * n) xs) = r"
proof -
  have lt: "length (take (k * n) xs) = k * n" using assms(2) by simp
  show ld: "length (drop (k * n) xs) = r" using assms(2) by simp
  then have ne: "drop (k * n) xs \<noteq> []" using assms(3) by auto
  have "chunks n (take (k * n) xs @ drop (k * n) xs) =
      chunks n (take (k * n) xs) @ chunks n (drop (k * n) xs)"
    using assms(1) lt by (rule chunks_append_full)
  moreover have "chunks n (drop (k * n) xs) = [drop (k * n) xs]"
    using ne ld assms(4) by (intro chunks_short) simp_all
  ultimately show "chunks n xs = chunks n (take (k * n) xs) @ [drop (k * n) xs]"
    by simp
  from chunks_full [OF assms(1) lt]
  show "length (chunks n (take (k * n) xs)) = k"
    and "\<forall>b\<in>set (chunks n (take (k * n) xs)). length b = n" by simp_all
qed

lemma map_length_chunks:
  assumes "0 < n" "length xs = k * n + r" "0 < r" "r \<le> n"
  shows "map length (chunks n xs) = replicate k n @ [r]"
proof -
  note c = chunks_last_partial [OF assms]
  have "map length cs = replicate (length cs) n" if "\<forall>b\<in>set cs. length b = n"
    for cs :: "'a list list"
    using that by (induction cs) simp_all
  from this [OF c(3)] have "map length (chunks n (take (k * n) xs)) = replicate k n"
    by (simp only: c(2))
  then show ?thesis using c(4) by (simp add: c(1))
qed

lemma sum_batch_loss_full:
  assumes "\<forall>b\<in>set cs. length b = n"
  shows "sum_list (map (batch_loss m) cs) =
           sum_list (map (\<lambda>s. nll (logits m (fst s)) (snd s)) (concat cs)) / real n"
  using assms by (induction cs) (simp_all add: batch_loss_def add_divide_distrib)

lemma unweighted_mean_eq_iff:
  fixes S1 S2 :: real
  shows "(S1 / 64 + S2 / 16) / 157 = (S1 + S2) / 10000 \<longleftrightarrow> S2 / 16 = S1 / 9984"
  by (simp add: field_simps)

lemma test_average_vs_sample_mean:
  assumes "length ds = 10000"
  shows "sum_list (map (batch_loss m) (chunks 64 ds)) / real (length (chunks 64 ds)) =
           sum_list (map (batch_loss m) (chunks 64 ds)) / 157 \<and>
         (sum_list (map (batch_loss m) (chunks 64 ds)) / 157 = batch_loss m ds \<longleftrightarrow>
          batch_loss m (drop 9984 ds) = batch_loss m (take 9984 ds))"
proof -
  let ?l = "\<lambda>s. nll (logits m (fst s)) (snd s)"
  let ?S1 = "sum_list (map ?l (take 9984 ds))"
  let ?S2 = "sum_list (map ?l (drop 9984 ds))"
  have len: "length ds = 156 * 64 + 16" using assms by simp
  note c = chunks_last_partial [OF _ len, simplified]
  have nb: "length (chunks 64 ds) = 157" by (simp add: c(1) c(2))
  have full: "sum_list (map (batch_loss m) (chunks 64 (take 9984 ds))) = ?S1 / 64"
    using sum_batch_loss_full [of "chunks 64 (take 9984 ds)" 64 m] c(3)
    by (simp add: concat_chunks)
  have last: "batch_loss m (drop 9984 ds) = ?S2 / 16"
    by (simp add: batch_loss_def c(4))
  have first: "batch_loss m (take 9984 ds) = ?S1 / 9984"
    using assms by (simp add: batch_loss_def)
  have "sum_list (map ?l ds) = sum_list (map ?l (take 9984 ds @ drop 9984 ds))"
    by (simp only: append_take_drop_id)
  then have "sum_list (map ?l ds) = ?S1 + ?S2" by (simp only: map_append sum_list_append)
  then have whole: "batch_loss m ds = (?S1 + ?S2) / 10000"
    using assms by (simp add: batch_loss_def)
  have total: "sum_list (map (batch_loss m) (chunks 64 ds)) = ?S1 / 64 + ?S2 / 16"
    by (simp add: c(1) full last)
  show ?thesis
    unfolding nb total whole last first using unweighted_mean_eq_iff [of ?S1 ?S2] by simp
qed

section \<open>The function train\<close>

lemma sgd_update_entries:
  "sgd_update eta g p =
     Tensor (shape p) (map (\<lambda>j. data p ! j - eta * g j) [0..<length (data p)])"
proof -
  have "map (\<lambda>(i, v). v - eta * g i) (enumerate 0 (data p)) =
      map (\<lambda>j. data p ! j - eta * g j) [0..<length (data p)]"
    by (rule nth_equalityI) (simp_all add: nth_enumerate_eq)
  then show ?thesis by (simp add: sgd_update_def)
qed

lemma step_state_dict:
  "concat (map module_state (enumerate n (map (module_step eta g) (enumerate n ms)))) =
     map (\<lambda>(k, p). (k, sgd_update eta (g k) p)) (concat (map module_state (enumerate n ms)))"
proof (induction ms arbitrary: n)
  case Nil
  then show ?case by simp
next
  case (Cons md ms)
  then show ?case by (cases md) simp_all
qed

lemma state_dict_optimizer_step:
  "grad m = Some g \<Longrightarrow>
   state_dict (optimizer_step opt m) =
     map (\<lambda>(k, p). (k, sgd_update (lr opt) (g k) p)) (state_dict m)"
  by (simp add: optimizer_step_def state_dict_def step_state_dict)

lemma train_batch_model:
  assumes "train_batch ag lf sz i X y w = Inr w'"
  shows "model w' =
           optimizer_zero_grad (optimizer_step (optimizer w) (loss_backward (ag (model w) X y) (model w)))"
    and "optimizer w' = optimizer w" and "files w' = files w"
    and "\<exists>pred loss. forward (model w) X = Inr pred \<and> lf pred y = Inr loss"
  using assms
  by (auto simp add: train_batch_def Let_def split: sum.splits if_splits)

lemma train_batch_grad:
  "train_batch ag lf sz i X y w = Inr w' \<Longrightarrow> grad (model w') = None"
  by (simp add: train_batch_model(1) optimizer_zero_grad_def)

lemma train_batch_update:
  assumes "train_batch ag lf sz i X y w = Inr w'" "grad (model w) = None"
  shows "state_dict (model w') =
           map (\<lambda>(k, p). (k, sgd_update (lr (optimizer w)) (ag (model w) X y k) p))
             (state_dict (model w))"
proof -
  let ?m1 = "loss_backward (ag (model w) X y) (model w)"
  have g: "grad ?m1 = Some (ag (model w) X y)"
    using assms(2) by (simp add: loss_backward_def)
  have "state_dict (model w') = state_dict (optimizer_step (optimizer w) ?m1)"
    unfolding train_batch_model(1) [OF assms(1)] by (rule state_dict_cong) simp
  also have "\<dots> = map (\<lambda>(k, p). (k, sgd_update (lr (optimizer w)) (ag (model w) X y k) p))
      (state_dict ?m1)"
    using g by (rule state_dict_optimizer_step)
  also have "state_dict ?m1 = state_dict (model w)"
    by (rule state_dict_cong) simp
  finally show ?thesis .
qed

lemma train_batch_ok_preserved:
  "train_batch ag lf sz i X y w = Inr w' \<Longrightarrow> NeuralNetwork_ok (model w) \<Longrightarrow>
   NeuralNetwork_ok (model w')"
  by (simp add: train_batch_model(1))


lemma train_loop_frame:
  assumes "train_loop ag lf sz bs w = Inr w'"
  shows "optimizer w' = optimizer w \<and> files w' = files w \<and>
         (grad (model w) = None \<longrightarrow> grad (model w') = None) \<and>
         (NeuralNetwork_ok (model w) \<longrightarrow> NeuralNetwork_ok (model w'))"
  using assms
proof (induction bs arbitrary: w)
  case Nil
  then show ?case by simp
next
  case (Cons b bs)
  obtain i r where b: "b = (i, r)" by (cases b)
  from Cons.prems obtain X y w1 where
    r: "r = Inr (X, y)" and s: "train_batch ag lf sz i X y w = Inr w1"
    and l: "train_loop ag lf sz bs w1 = Inr w'"
    by (auto simp add: b split: sum.splits prod.splits)
  from Cons.IH [OF l] train_batch_model(2,3) [OF s] train_batch_grad [OF s]
    train_batch_ok_preserved [OF s]
  show ?case by auto
qed

section \<open>The epoch loop\<close>

lemma train_batch_ok:
  assumes "NeuralNetwork_ok (model w)" "b \<noteq> []" "list_all sample_ok b"
    "collate b = Inr (X, y)"
  shows "\<exists>w'. train_batch ag loss_fn sz i X y w = Inr w' \<and>
           map erase (trace w') = map erase (trace w) @ batch_marks i"
proof -
  have X: "X = Tensor [length b, 1, 28, 28] (concat (map (\<lambda>s. data (fst s)) b))"
    and y: "y = map snd b"
    using collate_ok [OF assms(2,3)] assms(4) by simp_all
  have f: "forward (model w) X = Inr (Tensor [length b, 10] (concat (map (\<lambda>s. logits (model w) (fst s)) b)))"
    unfolding X by (rule forward_batch [OF assms(1,3)])
  have l: "loss_fn (Tensor [length b, 10] (concat (map (\<lambda>s. logits (model w) (fst s)) b))) y =
      Inr (batch_loss (model w) b)"
    unfolding y loss_fn_def by (rule CrossEntropyLoss_batch [OF assms(1,2,3)])
  have n: "tensor_len X = Inr (length b)" by (simp add: X tensor_len_def)
  show ?thesis
    by (simp add: train_batch_def Let_def f l n batch_marks_def)
qed

lemma train_marks_Suc: "train_marks i (Suc n) = batch_marks i @ train_marks (Suc i) n"
  by (simp add: train_marks_def upt_conv_Cons del: upt_Suc)

lemma train_loop_ok:
  assumes "\<forall>b\<in>set bs. b \<noteq> [] \<and> list_all sample_ok b" "NeuralNetwork_ok (model w)"
  shows "\<exists>w'. train_loop ag loss_fn sz (enumerate i (map collate bs)) w = Inr w' \<and>
           map erase (trace w') = map erase (trace w) @ train_marks i (length bs)"
  using assms
proof (induction bs arbitrary: i w)
  case Nil
  then show ?case by (simp add: train_marks_def)
next
  case (Cons b bs)
  then have b: "b \<noteq> []" "list_all sample_ok b" by simp_all
  obtain X y where c: "collate b = Inr (X, y)"
    using collate_ok [OF b] by simp
  from train_batch_ok [OF Cons.prems(2) b c, of ag sz i] obtain w1 where
    s: "train_batch ag loss_fn sz i X y w = Inr w1"
    and t1: "map erase (trace w1) = map erase (trace w) @ batch_marks i" by blast
  have ok1: "NeuralNetwork_ok (model w1)"
    using s Cons.prems(2) by (rule train_batch_ok_preserved)
  have "\<forall>b\<in>set bs. b \<noteq> [] \<and> list_all sample_ok b" using Cons.prems(1) by simp
  from Cons.IH [OF this ok1, of "Suc i"] obtain w' where
    l: "train_loop ag loss_fn sz (enumerate (Suc i) (map collate bs)) w1 = Inr w'"
    and t2: "map erase (trace w') = map erase (trace w1) @ train_marks (Suc i) (length bs)"
    by blast
  have "train_loop ag loss_fn sz (enumerate i (map collate (b # bs))) w = Inr w'"
    by (simp add: c s l)
  moreover have "map erase (trace w') = map erase (trace w) @ train_marks i (length (b # bs))"
    by (simp add: t2 t1 train_marks_Suc)
  ultimately show ?case by blast
qed

lemma train_ok:
  assumes "list_all sample_ok training_data" "NeuralNetwork_ok (model w)"
  shows "\<exists>w'. train ag (train_dataloader training_data) loss_fn w = Inr w' \<and>
           map erase (trace w') =
             map erase (trace w) @ train_marks 0 (DataLoader_len (train_dataloader training_data))"
proof -
  have nb: "DataLoader_len \<lparr>dataset = training_data, dl_batch_size = 64\<rparr> =
      length (chunks 64 training_data)"
    by (simp add: DataLoader_len_chunks)
  have ok: "NeuralNetwork_ok (model (w\<lparr>model := model_train (model w)\<rparr>))"
    using assms(2) by simp
  from train_loop_ok [OF chunks_sample_ok [OF assms(1)] ok,
      where n1 = 64 and ag = ag and sz = "length training_data" and i = 0]
  show ?thesis
    by (simp add: train_def Let_def DataLoader_iter_def train_dataloader_def batch_size_def nb)
qed

lemma train_frame:
  assumes "train ag dl lf w = Inr w'"
  shows "optimizer w' = optimizer w \<and> files w' = files w \<and>
         (grad (model w) = None \<longrightarrow> grad (model w') = None) \<and>
         (NeuralNetwork_ok (model w) \<longrightarrow> NeuralNetwork_ok (model w'))"
  using train_loop_frame [OF assms [unfolded train_def Let_def]]
  by (simp add: model_train_def NeuralNetwork_ok_simps(1) [unfolded model_train_def])

lemma epoch_frame:
  assumes "epoch ag tr te t w = Inr w'"
  shows "optimizer w' = optimizer w \<and> files w' = files w \<and>
         (grad (model w) = None \<longrightarrow> grad (model w') = None) \<and>
         (NeuralNetwork_ok (model w) \<longrightarrow> NeuralNetwork_ok (model w'))"
proof -
  from assms obtain w1 where
    a: "train ag (train_dataloader tr) loss_fn (w\<lparr>trace := trace w @ [Print (Epoch (t + 1))]\<rparr>) = Inr w1"
    and b: "test (test_dataloader te) loss_fn w1 = Inr w'"
    by (auto simp add: epoch_def split: sum.splits)
  from train_frame [OF a] test_frame [OF b] show ?thesis
    by (auto simp add: NeuralNetwork_ok_cong [of "model w'" "model w1"])
qed

lemma epoch_loop_frame:
  assumes "epoch_loop ag tr te ts w = Inr w'"
  shows "optimizer w' = optimizer w \<and> files w' = files w \<and>
         (grad (model w) = None \<longrightarrow> grad (model w') = None) \<and>
         (NeuralNetwork_ok (model w) \<longrightarrow> NeuralNetwork_ok (model w'))"
  using assms
proof (induction ts arbitrary: w)
  case Nil
  then show ?case by simp
next
  case (Cons t ts)
  from Cons.prems obtain w1 where
    a: "epoch ag tr te t w = Inr w1" and b: "epoch_loop ag tr te ts w1 = Inr w'"
    by (auto split: sum.splits)
  from Cons.IH [OF b] epoch_frame [OF a] show ?case by auto
qed

lemma epoch_ok:
  assumes "list_all sample_ok training_data" "list_all sample_ok test_data" "test_data \<noteq> []"
    "NeuralNetwork_ok (model w)"
  shows "\<exists>w'. epoch ag training_data test_data t w = Inr w' \<and>
           map erase (trace w') =
             map erase (trace w) @
               epoch_marks (DataLoader_len (train_dataloader training_data)) t"
proof -
  let ?w0 = "w\<lparr>trace := trace w @ [Print (Epoch (t + 1))]\<rparr>"
  have ok0: "NeuralNetwork_ok (model ?w0)" using assms(4) by simp
  from train_ok [OF assms(1) ok0, of ag] obtain w1 where
    a: "train ag (train_dataloader training_data) loss_fn ?w0 = Inr w1"
    and t1: "map erase (trace w1) =
      map erase (trace ?w0) @ train_marks 0 (DataLoader_len (train_dataloader training_data))"
    by blast
  have ok1: "NeuralNetwork_ok (model w1)" using train_frame [OF a] ok0 by simp
  have b: "test (test_dataloader test_data) loss_fn w1 =
      Inr (w1\<lparr>model := model_eval (model w1),
              trace := trace w1 @
                [Print (TestError
                   (100 * (real (length (filter (correct (model w1)) test_data)) /
                      real (length test_data)))
                   (sum_list (map (batch_loss (model w1)) (chunks 64 test_data)) /
                      real (length (chunks 64 test_data))))]\<rparr>)"
    using test_returns [OF ok1 assms(2,3), of 64]
    by (simp add: test_dataloader_def batch_size_def)
  show ?thesis
    using a b t1 by (simp add: epoch_def epoch_marks_def)
qed

lemma epoch_loop_ok:
  assumes "list_all sample_ok training_data" "list_all sample_ok test_data" "test_data \<noteq> []"
    "NeuralNetwork_ok (model w)"
  shows "\<exists>w'. epoch_loop ag training_data test_data ts w = Inr w' \<and>
           map erase (trace w') =
             map erase (trace w) @
               concat (map (epoch_marks (DataLoader_len (train_dataloader training_data))) ts)"
  using assms(4)
proof (induction ts arbitrary: w)
  case Nil
  then show ?case by simp
next
  case (Cons t ts)
  from epoch_ok [OF assms(1,2,3) Cons.prems, of ag t] obtain w1 where
    a: "epoch ag training_data test_data t w = Inr w1"
    and t1: "map erase (trace w1) =
      map erase (trace w) @ epoch_marks (DataLoader_len (train_dataloader training_data)) t"
    by blast
  have ok1: "NeuralNetwork_ok (model w1)" using epoch_frame [OF a] Cons.prems by simp
  from Cons.IH [OF ok1] obtain w' where
    b: "epoch_loop ag training_data test_data ts w1 = Inr w'"
    and t2: "map erase (trace w') =
      map erase (trace w1) @
        concat (map (epoch_marks (DataLoader_len (train_dataloader training_data))) ts)"
    by blast
  show ?case by (simp add: a b t2 t1)
qed

lemma cell_train_ok:
  assumes "list_all sample_ok training_data" "list_all sample_ok test_data" "test_data \<noteq> []"
    "NeuralNetwork_ok (model w)"
  shows "\<exists>w'. cell_train ag training_data test_data w = Inr w' \<and>
           map erase (trace w') =
             map erase (trace w) @
               concat (map (epoch_marks (DataLoader_len (train_dataloader training_data)))
                 [0..<20]) @ [Print Done]"
proof -
  from epoch_loop_ok [OF assms, of ag "[0..<20]"] obtain w1 where
    a: "epoch_loop ag training_data test_data [0..<20] w = Inr w1"
    and t: "map erase (trace w1) =
      map erase (trace w) @
        concat (map (epoch_marks (DataLoader_len (train_dataloader training_data))) [0..<20])"
    by blast
  show ?thesis
    unfolding cell_train_def epochs_def a using t by simp
qed

lemma cell_train_frame:
  assumes "cell_train ag tr te w = Inr w'"
  shows "optimizer w' = optimizer w \<and> files w' = files w \<and>
         (grad (model w) = None \<longrightarrow> grad (model w') = None) \<and>
         (NeuralNetwork_ok (model w) \<longrightarrow> NeuralNetwork_ok (model w'))"
proof -
  from assms obtain w1 where
    a: "epoch_loop ag tr te [0..<epochs] w = Inr w1"
    and b: "w' = w1\<lparr>trace := trace w1 @ [Print Done]\<rparr>"
    by (auto simp add: cell_train_def split: sum.splits)
  from epoch_loop_frame [OF a] show ?thesis by (simp add: b)
qed

lemma count_steps_batch_marks: "length (filter is_Step (batch_marks b)) = 1"
  by (simp add: batch_marks_def)

lemma count_steps_train_marks: "length (filter is_Step (train_marks i n)) = n"
proof (induction n arbitrary: i)
  case 0
  then show ?case by (simp add: train_marks_def)
next
  case (Suc n)
  then show ?case by (simp add: train_marks_Suc count_steps_batch_marks)
qed

lemma count_steps_epoch_marks: "length (filter is_Step (epoch_marks n t)) = n"
  by (simp add: epoch_marks_def count_steps_train_marks)

lemma count_steps_epochs:
  "length (filter is_Step (concat (map (epoch_marks n) ts))) = length ts * n"
  by (induction ts) (simp_all add: count_steps_epoch_marks)

lemma is_Step_erase [simp]: "is_Step (erase e) = is_Step e"
  by (cases e rule: erase.cases) simp_all

lemma count_steps_erase:
  "length (filter is_Step (map erase tr)) = length (filter is_Step tr)"
  by (induction tr) simp_all

lemma collate_blank: "collate [(blank_image, 9)] = Inr (blank_batch, [9])"
  using collate_ok [of "[(blank_image, 9)]"] by (simp add: blank_batch_def)

lemma start_simps [simp]:
  "NeuralNetwork_ok (model (start init fs))" "grad (model (start init fs)) = None"
  "optimizer (start init fs) = \<lparr>lr = 1 / 1000\<rparr>" "trace (start init fs) = []"
  "files (start init fs) = fs"
proof -
  show "NeuralNetwork_ok (model (start init fs))" by (simp add: start_def)
qed (simp_all add: start_def NeuralNetwork_init_def)

section \<open>Saving and loading\<close>

lemma cell_load_save:
  assumes "NeuralNetwork_ok (model w)"
  shows "cell_load init (cell_save w) =
           Inr ((cell_save w)\<lparr>model :=
                  (NeuralNetwork_init init)\<lparr>linear_relu_stack := linear_relu_stack (model w)\<rparr>\<rparr>)"
proof -
  have "torch_load model_path (files (cell_save w)) = Inr (state_dict (model w))"
    by (simp add: torch_load_def cell_save_def torch_save_def)
  then show ?thesis
    using load_state_dict_roundtrip [OF assms NeuralNetwork_ok_init, of init]
    by (simp add: cell_load_def)
qed

lemma cell_load_frame:
  assumes "cell_load init w = Inr w'"
  shows "optimizer w' = optimizer w \<and> files w' = files w \<and> trace w' = trace w"
  using assms by (auto simp add: cell_load_def split: sum.splits)

lemma train_loop_error:
  "train_batch ag lf sz i X y w = Inl e \<Longrightarrow>
   train_loop ag lf sz ((i, Inr (X, y)) # bs) w = Inl e"
  by simp

lemma epoch_loop_error:
  "epoch ag tr te t w = Inl e \<Longrightarrow> epoch_loop ag tr te (t # ts) w = Inl e"
  by simp

lemma notebook_returns:
  assumes "list_all sample_ok training_data" "list_all sample_ok test_data" "test_data \<noteq> []"
  shows "\<exists>w. notebook ag init init' training_data test_data fs = Inr w"
proof -
  from cell_train_ok [OF assms, of "start init fs" ag] obtain wa where
    a: "cell_train ag training_data test_data (start init fs) = Inr wa" by auto
  have oka: "NeuralNetwork_ok (model wa)" using cell_train_frame [OF a] by simp
  let ?m = "(NeuralNetwork_init init')\<lparr>linear_relu_stack := linear_relu_stack (model wa)\<rparr>"
  let ?wb = "(cell_save wa)\<lparr>model := ?m\<rparr>"
  have b: "cell_load init' (cell_save wa) = Inr ?wb" using oka by (rule cell_load_save)
  have okb: "NeuralNetwork_ok (model ?wb)"
    using oka NeuralNetwork_ok_cong [of ?m "model wa"] by simp
  from assms(3) obtain x y rest where td: "test_data = (x, y) # rest"
    by (cases test_data) auto
  with assms(2) have s: "image_ok x" "0 \<le> y" "y < 10" by (simp_all add: sample_ok_def)
  from cell_predict_ok [OF okb s, of rest] obtain w where
    c: "cell_predict test_data ?wb = Inr w" unfolding td by blast
  show ?thesis using a b c by (simp add: notebook_def)
qed

section \<open>The network with all parameters 0\<close>

text \<open>
  With every weight and bias 0 the logits of any image are 0, so the predicted class is
  class 0 and the loss of a sample is \<open>ln 10\<close>.
\<close>

lemma dot_zeros: "dot r (replicate n 0) = 0"
proof (induction r arbitrary: n)
  case Nil
  then show ?case by (simp add: dot_def)
next
  case (Cons a r)
  then show ?case by (cases n) (simp_all add: dot_def)
qed

lemma concat_replicate_zeros:
  "concat (replicate n (replicate k (0::real))) = replicate (n * k) 0"
  by (induction n) (simp_all add: replicate_add)

lemma rows_zeros: "rows n k (replicate (n * k) (0::real)) = replicate n (replicate k 0)"
  using rows_concat [of "replicate n (replicate k (0::real))" k n]
  by (simp add: concat_replicate_zeros)

lemma linear_row_zero:
  "linear_row (nn_Linear i out (\<lambda>j. 0) (\<lambda>j. 0)) r = replicate out 0"
proof -
  have w: "map (\<lambda>j. 0::real) [0..<out * i] = replicate (out * i) 0"
    by (simp add: map_replicate_const)
  have b: "map (\<lambda>j. 0::real) [0..<out] = replicate out 0"
    by (simp add: map_replicate_const)
  have "map2 (\<lambda>w b. dot r w + b) (replicate out (replicate i 0)) (replicate out 0) =
      replicate out (0::real)"
    by (simp add: zip_replicate dot_zeros)
  then show ?thesis
    by (simp add: linear_row_def nn_Linear_def w b rows_zeros)
qed

lemma logits_zero_network: "logits (NeuralNetwork_init (\<lambda>k i. 0)) x = replicate 10 0"
  by (simp add: logits_def stack_row_def NeuralNetwork_init_def linear_row_zero)

lemma argmax_row_zeros: "argmax_row (replicate 10 0) = Inr 0"
  by (simp add: argmax_row_def eval_nat_numeral)

lemma predicted_class_zero_network:
  "image_ok x \<Longrightarrow> predicted_class (NeuralNetwork_init (\<lambda>k i. 0)) x = Inr 0"
  using predicted_class_logits [of "NeuralNetwork_init (\<lambda>k i. 0)" x]
  by (simp add: logits_zero_network argmax_row_zeros)

lemma nll_zeros: "nll (replicate 10 0) 9 = ln 10"
  by (simp add: nll_def eval_nat_numeral)


lemma model_start: "model (start init fs) = NeuralNetwork_init init"
  by (simp add: start_def)

lemma predicted_class_cong:
  "linear_relu_stack m' = linear_relu_stack m \<Longrightarrow> predicted_class m' = predicted_class m"
  using forward_cong [of m' m] by (simp add: predicted_class_def fun_eq_iff)


section \<open>The claims\<close>



text \<open>
  C2. The network is four linear layers, 784 to 1024, 1024 to 1024, 1024 to 512 and 512 to
  10, with a ReLU after each of the first three. On a batch of \<open>n\<close> images of 784 pixels
  \<^verbatim>\<open>forward\<close> flattens each image to 784 entries, applies the layers in this order and
  returns \<open>n\<close> vectors of 10 logits.
\<close>

theorem forward_four_linear_layers:
  assumes "shape x = n # d # ds" "prod_list (d # ds) = 784"
  shows "architecture (NeuralNetwork_init init) =
           [Some (784, 1024), None, Some (1024, 1024), None, Some (1024, 512), None, Some (512, 10)] \<and>
         (\<exists>a b c e x0 y1 y2 y3 logits.
            linear_relu_stack (NeuralNetwork_init init) = [Lin a, ReLU, Lin b, ReLU, Lin c, ReLU, Lin e] \<and>
            nn_Flatten x = Inr x0 \<and> shape x0 = [n, 784] \<and>
            Linear_forward a x0 = Inr y1 \<and> shape y1 = [n, 1024] \<and>
            Linear_forward b (nn_ReLU y1) = Inr y2 \<and> shape y2 = [n, 1024] \<and>
            Linear_forward c (nn_ReLU y2) = Inr y3 \<and> shape y3 = [n, 512] \<and>
            Linear_forward e (nn_ReLU y3) = Inr logits \<and> shape logits = [n, 10] \<and>
            length (data logits) = n * 10 \<and> wf_tensor logits \<and>
            forward (NeuralNetwork_init init) x = Inr logits)"
proof -
  let ?m = "NeuralNetwork_init init"
  have ok: "NeuralNetwork_ok ?m" by simp
  then obtain a b c e where st:
    "linear_relu_stack ?m = [Lin a, ReLU, Lin b, ReLU, Lin c, ReLU, Lin e]"
    "in_features a = 784" "out_features a = 1024" "Linear_ok a"
    "in_features b = 1024" "out_features b = 1024" "Linear_ok b"
    "in_features c = 1024" "out_features c = 512" "Linear_ok c"
    "in_features e = 512" "out_features e = 10" "Linear_ok e"
    by (rule NeuralNetwork_ok_stack)
  define x0 where "x0 = Tensor [n, 784] (data x)"
  have fl: "nn_Flatten x = Inr x0"
    using assms by (cases x) (simp add: x0_def del: prod_list.Cons)
  obtain d1 where y1: "Linear_forward a x0 = Inr (Tensor [n, 1024] d1)"
    using Linear_forward_2d [OF st(2), of n "data x"] st(3) by (simp add: x0_def)
  obtain d2 where y2: "Linear_forward b (nn_ReLU (Tensor [n, 1024] d1)) = Inr (Tensor [n, 1024] d2)"
    using Linear_forward_2d [OF st(5), of n "map relu d1"] st(6) by (simp add: nn_ReLU_def)
  obtain d3 where y3: "Linear_forward c (nn_ReLU (Tensor [n, 1024] d2)) = Inr (Tensor [n, 512] d3)"
    using Linear_forward_2d [OF st(8), of n "map relu d2"] st(9) by (simp add: nn_ReLU_def)
  have y4: "Linear_forward e (nn_ReLU (Tensor [n, 512] d3)) =
      Inr (Tensor [n, 10] (concat (map (linear_row e) (rows n 512 (map relu d3)))))"
    using Linear_forward_2d [OF st(11), of n "map relu d3"] st(12) by (simp add: nn_ReLU_def)
  have len: "length (concat (map (linear_row e) (rows n 512 (map relu d3)))) = n * 10"
    using length_concat_linear_rows [OF st(13)] st(12) by simp
  have fw: "forward ?m x =
      Inr (Tensor [n, 10] (concat (map (linear_row e) (rows n 512 (map relu d3)))))"
    by (simp add: forward_def fl st(1) y1 y2 y3 y4)
  have arch: "architecture ?m =
      [Some (784, 1024), None, Some (1024, 1024), None, Some (1024, 512), None, Some (512, 10)]"
    using ok by (simp add: NeuralNetwork_ok_def)
  have sh: "shape x0 = [n, 784]" by (simp add: x0_def)
  have body: "linear_relu_stack ?m = [Lin a, ReLU, Lin b, ReLU, Lin c, ReLU, Lin e] \<and>
      nn_Flatten x = Inr x0 \<and> shape x0 = [n, 784] \<and>
      Linear_forward a x0 = Inr (Tensor [n, 1024] d1) \<and> shape (Tensor [n, 1024] d1) = [n, 1024] \<and>
      Linear_forward b (nn_ReLU (Tensor [n, 1024] d1)) = Inr (Tensor [n, 1024] d2) \<and>
      shape (Tensor [n, 1024] d2) = [n, 1024] \<and>
      Linear_forward c (nn_ReLU (Tensor [n, 1024] d2)) = Inr (Tensor [n, 512] d3) \<and>
      shape (Tensor [n, 512] d3) = [n, 512] \<and>
      Linear_forward e (nn_ReLU (Tensor [n, 512] d3)) =
        Inr (Tensor [n, 10] (concat (map (linear_row e) (rows n 512 (map relu d3))))) \<and>
      shape (Tensor [n, 10] (concat (map (linear_row e) (rows n 512 (map relu d3))))) = [n, 10] \<and>
      length (data (Tensor [n, 10] (concat (map (linear_row e) (rows n 512 (map relu d3)))))) = n * 10 \<and>
      wf_tensor (Tensor [n, 10] (concat (map (linear_row e) (rows n 512 (map relu d3))))) \<and>
      forward ?m x = Inr (Tensor [n, 10] (concat (map (linear_row e) (rows n 512 (map relu d3)))))"
    using st(1) fl sh y1 y2 y3 y4 len fw by (simp add: wf_tensor_def)
  show ?thesis
    apply (rule conjI)
     apply (rule arch)
    apply (rule exI [of _ a], rule exI [of _ b], rule exI [of _ c], rule exI [of _ e])
    apply (rule exI [of _ x0], rule exI [of _ "Tensor [n, 1024] d1"])
    apply (rule exI [of _ "Tensor [n, 1024] d2"], rule exI [of _ "Tensor [n, 512] d3"])
    apply (rule exI [of _ "Tensor [n, 10] (concat (map (linear_row e) (rows n 512 (map relu d3))))"])
    apply (rule body)
    done
qed

theorem forward_four_linear_layers_witness:
  "shape (Tensor [1, 1, 28, 28] (replicate 784 0)) = 1 # 1 # [28, 28] \<and>
   prod_list (1 # [28, 28]) = (784::nat) \<and>
   (\<exists>logits.
      forward (NeuralNetwork_init (\<lambda>k i. 0)) (Tensor [1, 1, 28, 28] (replicate 784 0)) = Inr logits \<and>
      shape logits = [1, 10] \<and> length (data logits) = 10)"
proof -
  let ?x = "Tensor [1, 1, 28, 28] (replicate 784 0)"
  have h1: "shape ?x = 1 # 1 # [28, 28]" by (rule tensor.sel)
  have h2: "prod_list (1 # [28, 28]) = (784::nat)" by simp
  from forward_four_linear_layers [OF h1 h2, of "\<lambda>k i. 0"]
  obtain logits where
    "forward (NeuralNetwork_init (\<lambda>k i. 0)) ?x = Inr logits"
    "shape logits = [1, 10]" "length (data logits) = 1 * 10"
    by blast
  then have "\<exists>logits. forward (NeuralNetwork_init (\<lambda>k i. 0)) ?x = Inr logits \<and>
      shape logits = [1, 10] \<and> length (data logits) = 10"
    by (intro exI [of _ logits]) (simp only: mult_1 simp_thms)
  with h1 h2 show ?thesis by (intro conjI)
qed



text \<open>
  C4. The training cell is a plain nested loop that ends: on datasets of 28 by 28 images
  with labels from 0 to 9 (the test set not empty) it returns, and its trace is, for each
  of the epochs 1 to 20 in turn, the header, one training step for each batch of the
  train data loader in order, and one line of \<^verbatim>\<open>test\<close>, followed by the final line. In all
  it makes 20 times the number of training batches steps. Nothing handles a failure: an
  exception in a batch is the result of the loop of \<^verbatim>\<open>train\<close>, and an exception in an
  epoch is the result of the epoch loop.
\<close>

theorem training_loop_runs_twenty_epochs:
  assumes "list_all sample_ok training_data" "list_all sample_ok test_data" "test_data \<noteq> []"
    "NeuralNetwork_ok (model w)"
  shows "(\<exists>w'. cell_train ag training_data test_data w = Inr w' \<and>
           map erase (trace w') =
             map erase (trace w) @
               concat (map (epoch_marks (length (DataLoader_iter (train_dataloader training_data))))
                 [0..<20]) @ [Print Done] \<and>
           length (filter is_Step (trace w')) =
             length (filter is_Step (trace w)) +
               20 * length (DataLoader_iter (train_dataloader training_data))) \<and>
         (\<forall>lf sz i X y bs w0 e.
            train_batch ag lf sz i X y w0 = Inl e \<longrightarrow>
            train_loop ag lf sz ((i, Inr (X, y)) # bs) w0 = Inl e) \<and>
         (\<forall>tr te t ts w0 e.
            epoch ag tr te t w0 = Inl e \<longrightarrow> epoch_loop ag tr te (t # ts) w0 = Inl e)"
proof -
  let ?nb = "length (DataLoader_iter (train_dataloader training_data))"
  have nb: "DataLoader_len (train_dataloader training_data) = ?nb"
    by (simp add: DataLoader_iter_def train_dataloader_def batch_size_def DataLoader_len_chunks)
  from cell_train_ok [OF assms, of ag] obtain w' where
    a: "cell_train ag training_data test_data w = Inr w'"
    and t: "map erase (trace w') =
      map erase (trace w) @ concat (map (epoch_marks ?nb) [0..<20]) @ [Print Done]"
    unfolding nb by blast
  have "length (filter is_Step (map erase (trace w'))) =
      length (filter is_Step (map erase (trace w))) + 20 * ?nb"
    unfolding t by (simp add: count_steps_epochs count_steps_erase del: upt_Suc)
  then have c: "length (filter is_Step (trace w')) = length (filter is_Step (trace w)) + 20 * ?nb"
    by (simp only: count_steps_erase)
  from a t c have "\<exists>w'. cell_train ag training_data test_data w = Inr w' \<and>
      map erase (trace w') =
        map erase (trace w) @ concat (map (epoch_marks ?nb) [0..<20]) @ [Print Done] \<and>
      length (filter is_Step (trace w')) = length (filter is_Step (trace w)) + 20 * ?nb"
    by blast
  then show ?thesis
    using train_loop_error [of ag] epoch_loop_error [of ag] by blast
qed

theorem training_loop_runs_twenty_epochs_witness:
  "list_all sample_ok [(blank_image, 9)] \<and> [(blank_image, 9 :: int)] \<noteq> [] \<and>
   NeuralNetwork_ok (model (start (\<lambda>k i. 0) Map.empty)) \<and>
   (\<exists>w'. cell_train (\<lambda>m X y k j. 1) [(blank_image, 9)] [(blank_image, 9)]
            (start (\<lambda>k i. 0) Map.empty) = Inr w' \<and>
      length (filter is_Step (trace w')) = 20) \<and>
   train_batch (\<lambda>m X y k j. 1) loss_fn 0 0 (Tensor [] []) [] (start (\<lambda>k i. 0) Map.empty) =
     Inl IndexError \<and>
   train_loop (\<lambda>m X y k j. 1) loss_fn 0 [(0, Inr (Tensor [] [], []))]
     (start (\<lambda>k i. 0) Map.empty) = Inl IndexError \<and>
   epoch (\<lambda>m X y k j. 1) [] [] 0 (start (\<lambda>k i. 0) Map.empty) = Inl ZeroDivisionError \<and>
   epoch_loop (\<lambda>m X y k j. 1) [] [] (0 # [1..<20]) (start (\<lambda>k i. 0) Map.empty) =
     Inl ZeroDivisionError"
proof -
  let ?w = "start (\<lambda>k i. 0) Map.empty"
  let ?ag = "\<lambda>(m::NeuralNetwork) (X::tensor) (y::int list) (k::key) (j::nat). 1::real"
  have h1: "list_all sample_ok [(blank_image, 9)]" by simp
  have h3: "[(blank_image, 9 :: int)] \<noteq> []" by simp
  have h4: "NeuralNetwork_ok (model ?w)" by simp
  have nb: "length (DataLoader_iter (train_dataloader [(blank_image, 9)])) = 1"
    using chunks_short [of "[(blank_image, 9 :: int)]" 64]
    by (simp add: DataLoader_iter_def train_dataloader_def batch_size_def)
  note main = training_loop_runs_twenty_epochs [OF h1 h1 h3 h4, of ?ag]
  from main have r: "\<exists>w'. cell_train ?ag [(blank_image, 9)] [(blank_image, 9)] ?w = Inr w' \<and>
      length (filter is_Step (trace w')) = 20"
    unfolding nb by auto
  have b: "train_batch ?ag loss_fn 0 0 (Tensor [] []) [] ?w = Inl IndexError"
    by (simp add: train_batch_def forward_def)
  from main b have lb: "train_loop ?ag loss_fn 0 [(0, Inr (Tensor [] [], []))] ?w = Inl IndexError"
    by blast
  have e: "epoch ?ag [] [] 0 ?w = Inl ZeroDivisionError"
    by (simp add: epoch_def train_def test_def train_dataloader_def test_dataloader_def
        DataLoader_iter_def DataLoader_len_def batch_size_def Let_def)
  from main e have l: "epoch_loop ?ag [] [] (0 # [1..<20]) ?w = Inl ZeroDivisionError"
    by blast
  from h1 h3 h4 r b lb e l show ?thesis by (intro conjI)
qed

text \<open>
  C5. On a non-empty test set of 28 by 28 images with labels from 0 to 9, \<^verbatim>\<open>test\<close> prints
  as accuracy (in percent) the number of samples whose predicted class is their label
  divided by the size of the test set, and as average loss the sum of the losses of the
  batches divided by the number of batches.
\<close>

theorem test_reports_accuracy_and_average_loss:
  assumes "NeuralNetwork_ok (model w)" "list_all sample_ok ds" "ds \<noteq> []" "0 < n"
  shows "test \<lparr>dataset = ds, dl_batch_size = n\<rparr> loss_fn w =
           Inr (w\<lparr>model := model_eval (model w),
                  trace := trace w @
                    [Print (TestError
                       (100 * (real (length (filter (correct (model w)) ds)) / real (length ds)))
                       (sum_list (map (batch_loss (model w)) (chunks n ds)) /
                          real (length (chunks n ds))))]\<rparr>) \<and>
         DataLoader_iter \<lparr>dataset = ds, dl_batch_size = n\<rparr> = map collate (chunks n ds) \<and>
         DataLoader_len \<lparr>dataset = ds, dl_batch_size = n\<rparr> = length (chunks n ds) \<and>
         (\<forall>b\<in>set (chunks n ds).
            \<exists>X y pred. collate b = Inr (X, y) \<and> forward (model w) X = Inr pred \<and>
              loss_fn pred y = Inr (batch_loss (model w) b)) \<and>
         (\<forall>s\<in>set ds.
            \<exists>k. predicted_class (model w) (fst s) = Inr k \<and> k < 10 \<and>
              predicted_class (model w) (fst s) = argmax_row (logits (model w) (fst s)) \<and>
              (correct (model w) s \<longleftrightarrow> int k = snd s))"
proof -
  have "\<forall>b\<in>set (chunks n ds).
      \<exists>X y pred. collate b = Inr (X, y) \<and> forward (model w) X = Inr pred \<and>
        loss_fn pred y = Inr (batch_loss (model w) b)"
    using chunks_sample_ok [OF assms(2), of n] batch_collated [OF assms(1)] by blast
  moreover have "\<forall>s\<in>set ds.
      \<exists>k. predicted_class (model w) (fst s) = Inr k \<and> k < 10 \<and>
        predicted_class (model w) (fst s) = argmax_row (logits (model w) (fst s)) \<and>
        (correct (model w) s \<longleftrightarrow> int k = snd s)"
  proof
    fix s assume "s \<in> set ds"
    with assms(2) have s: "image_ok (fst s)" "0 \<le> snd s"
      by (auto simp add: list_all_iff sample_ok_def)
    have eq: "predicted_class (model w) (fst s) = argmax_row (logits (model w) (fst s))"
      using assms(1) s(1) by (rule predicted_class_logits)
    have "logits (model w) (fst s) \<noteq> []" "length (logits (model w) (fst s)) = 10"
      using length_logits [OF assms(1) s(1)] by auto
    with argmax_row_bound [of "logits (model w) (fst s)"] obtain k where
      k: "argmax_row (logits (model w) (fst s)) = Inr k" "k < 10" by auto
    have "correct (model w) s \<longleftrightarrow> int k = snd s"
      using s(2) k(1) eq by (auto simp add: correct_def)
    with k eq show "\<exists>k. predicted_class (model w) (fst s) = Inr k \<and> k < 10 \<and>
        predicted_class (model w) (fst s) = argmax_row (logits (model w) (fst s)) \<and>
        (correct (model w) s \<longleftrightarrow> int k = snd s)" by auto
  qed
  ultimately show ?thesis
    using test_returns [OF assms] DataLoader_len_chunks [OF assms(4), of ds]
    by (simp add: DataLoader_iter_def)
qed

theorem test_reports_accuracy_and_average_loss_witness:
  "NeuralNetwork_ok (model (start (\<lambda>k i. 0) Map.empty)) \<and>
   list_all sample_ok [(blank_image, 9)] \<and> [(blank_image, 9 :: int)] \<noteq> [] \<and> (0::nat) < 64 \<and>
   test \<lparr>dataset = [(blank_image, 9)], dl_batch_size = 64\<rparr> loss_fn (start (\<lambda>k i. 0) Map.empty) =
     Inr ((start (\<lambda>k i. 0) Map.empty)
        \<lparr>model := model_eval (model (start (\<lambda>k i. 0) Map.empty)),
          trace := [Print (TestError 0 (ln 10))]\<rparr>)"
proof -
  let ?w = "start (\<lambda>k i. 0) Map.empty"
  let ?d = "[(blank_image, 9 :: int)]"
  have h1: "NeuralNetwork_ok (model ?w)" by simp
  have h2: "list_all sample_ok ?d" by simp
  have h3: "?d \<noteq> []" by simp
  have h4: "(0::nat) < 64" by simp
  have ch: "chunks 64 ?d = [?d]" by (rule chunks_short) simp_all
  have nc: "\<not> correct (model ?w) (blank_image, 9)"
    by (simp add: correct_def predicted_class_zero_network model_start)
  have bl: "batch_loss (model ?w) ?d = ln 10"
    by (simp add: batch_loss_def logits_zero_network nll_zeros model_start)
  from test_reports_accuracy_and_average_loss [OF h1 h2 h3 h4]
  have "test \<lparr>dataset = ?d, dl_batch_size = 64\<rparr> loss_fn ?w =
      Inr (?w\<lparr>model := model_eval (model ?w),
              trace := trace ?w @
                [Print (TestError
                   (100 * (real (length (filter (correct (model ?w)) ?d)) / real (length ?d)))
                   (sum_list (map (batch_loss (model ?w)) (chunks 64 ?d)) /
                      real (length (chunks 64 ?d))))]\<rparr>)"
    by blast
  then have "test \<lparr>dataset = ?d, dl_batch_size = 64\<rparr> loss_fn ?w =
      Inr (?w\<lparr>model := model_eval (model ?w), trace := [Print (TestError 0 (ln 10))]\<rparr>)"
    unfolding ch using nc bl by simp
  with h1 h2 h3 h4 show ?thesis by (intro conjI)
qed


text \<open>
  C6. Nothing changes the learning rate: at every point of the run, after any number of
  complete epochs and any number of batches of the next one, the optimizer still holds
  the learning rate \<open>1/1000\<close> it was built with, the gradients are cleared, and the step
  for the next batch is the plain update of every parameter entry by \<open>1/1000\<close> times its
  gradient. The optimizer is the same after the whole notebook.
\<close>

theorem learning_rate_is_constant:
  assumes "epoch_loop autograd training_data test_data [0..<t] (start init fs) = Inr w1"
    and "train_loop autograd loss_fn (length training_data)
           (take j (enumerate 0 (DataLoader_iter (train_dataloader training_data))))
           (w1\<lparr>trace := trace w1 @ [Print (Epoch (t + 1))], model := model_train (model w1)\<rparr>) =
         Inr w2"
    and "train_batch autograd loss_fn (length training_data) j X y w2 = Inr w3"
  shows "optimizer w1 = \<lparr>lr = 1 / 1000\<rparr> \<and> optimizer w2 = \<lparr>lr = 1 / 1000\<rparr> \<and>
         optimizer w3 = \<lparr>lr = 1 / 1000\<rparr> \<and> grad (model w2) = None \<and>
         state_dict (model w3) =
           map (\<lambda>(k, p). (k, Tensor (shape p)
                 (map (\<lambda>i. data p ! i - 1 / 1000 * autograd (model w2) X y k i)
                    [0..<length (data p)])))
             (state_dict (model w2)) \<and>
         (\<forall>w init'. notebook autograd init init' training_data test_data fs = Inr w \<longrightarrow>
            optimizer w = \<lparr>lr = 1 / 1000\<rparr>)"
proof -
  from epoch_loop_frame [OF assms(1)] have
    o1: "optimizer w1 = \<lparr>lr = 1 / 1000\<rparr>" and g1: "grad (model w1) = None" by simp_all
  let ?w = "w1\<lparr>trace := trace w1 @ [Print (Epoch (t + 1))], model := model_train (model w1)\<rparr>"
  have "optimizer ?w = \<lparr>lr = 1 / 1000\<rparr>" "grad (model ?w) = None"
    using o1 g1 by (simp_all add: model_train_def)
  with train_loop_frame [OF assms(2)] have
    o2: "optimizer w2 = \<lparr>lr = 1 / 1000\<rparr>" and g2: "grad (model w2) = None" by simp_all
  have o3: "optimizer w3 = \<lparr>lr = 1 / 1000\<rparr>"
    using train_batch_model(2) [OF assms(3)] o2 by simp
  have u: "state_dict (model w3) =
      map (\<lambda>(k, p). (k, Tensor (shape p)
            (map (\<lambda>i. data p ! i - 1 / 1000 * autograd (model w2) X y k i)
               [0..<length (data p)])))
        (state_dict (model w2))"
    using train_batch_update [OF assms(3) g2] by (simp add: o2 sgd_update_entries)
  have n: "\<forall>w init'. notebook autograd init init' training_data test_data fs = Inr w \<longrightarrow>
      optimizer w = \<lparr>lr = 1 / 1000\<rparr>"
  proof (intro allI impI)
    fix w init'
    assume "notebook autograd init init' training_data test_data fs = Inr w"
    then obtain wa wb where
      a: "cell_train autograd training_data test_data (start init fs) = Inr wa"
      and b: "cell_load init' (cell_save wa) = Inr wb"
      and c: "cell_predict test_data wb = Inr w"
      by (auto simp add: notebook_def split: sum.splits)
    have "optimizer wa = \<lparr>lr = 1 / 1000\<rparr>" using cell_train_frame [OF a] by simp
    then have "optimizer (cell_save wa) = \<lparr>lr = 1 / 1000\<rparr>" by (simp add: cell_save_def)
    then have "optimizer wb = \<lparr>lr = 1 / 1000\<rparr>" using cell_load_frame [OF b] by simp
    then show "optimizer w = \<lparr>lr = 1 / 1000\<rparr>" using cell_predict_frame [OF c] by simp
  qed
  from o1 o2 o3 g2 u n show ?thesis by (intro conjI)
qed

theorem learning_rate_is_constant_witness:
  "\<exists>w1 w2 w3 w.
     epoch_loop (\<lambda>m X y k j. 1) [(blank_image, 9)] [(blank_image, 9)] [0..<0]
       (start (\<lambda>k i. 0) Map.empty) = Inr w1 \<and>
     train_loop (\<lambda>m X y k j. 1) loss_fn (length [(blank_image, 9 :: int)])
       (take 0 (enumerate 0 (DataLoader_iter (train_dataloader [(blank_image, 9)]))))
       (w1\<lparr>trace := trace w1 @ [Print (Epoch (0 + 1))], model := model_train (model w1)\<rparr>) =
     Inr w2 \<and>
     train_batch (\<lambda>m X y k j. 1) loss_fn (length [(blank_image, 9 :: int)]) 0 blank_batch [9] w2 =
     Inr w3 \<and>
     optimizer w3 = \<lparr>lr = 1 / 1000\<rparr> \<and>
     state_dict (model w3) =
       map (\<lambda>(k, p). (k, Tensor (shape p)
             (map (\<lambda>i. data p ! i - 1 / 1000 * 1) [0..<length (data p)])))
         (state_dict (model w2)) \<and>
     notebook (\<lambda>m X y k j. 1) (\<lambda>k i. 0) (\<lambda>k i. 1) [(blank_image, 9)] [(blank_image, 9)]
       Map.empty = Inr w \<and>
     optimizer w = \<lparr>lr = 1 / 1000\<rparr>"
proof -
  let ?ag = "\<lambda>(m::NeuralNetwork) (X::tensor) (y::int list) (k::key) (j::nat). 1::real"
  let ?d = "[(blank_image, 9 :: int)]"
  define w1 where "w1 = start (\<lambda>k i. 0) Map.empty"
  define w2 where "w2 = w1\<lparr>trace := trace w1 @ [Print (Epoch (0 + 1))], model := model_train (model w1)\<rparr>"
  have h1: "epoch_loop ?ag ?d ?d [0..<0] (start (\<lambda>k i. 0) Map.empty) = Inr w1"
    by (simp add: w1_def)
  have h2: "train_loop ?ag loss_fn (length ?d)
       (take 0 (enumerate 0 (DataLoader_iter (train_dataloader ?d))))
       (w1\<lparr>trace := trace w1 @ [Print (Epoch (0 + 1))], model := model_train (model w1)\<rparr>) =
     Inr w2"
    by (simp add: w2_def)
  have ok2: "NeuralNetwork_ok (model w2)" by (simp add: w2_def w1_def)
  obtain w3 where h3: "train_batch ?ag loss_fn (length ?d) 0 blank_batch [9] w2 = Inr w3"
    using train_batch_ok [OF ok2 _ _ collate_blank, of ?ag "length ?d" 0] by auto
  obtain w where n: "notebook ?ag (\<lambda>k i. 0) (\<lambda>k i. 1) ?d ?d Map.empty = Inr w"
    using notebook_returns [of ?d ?d ?ag "\<lambda>k i. 0" "\<lambda>k i. 1" Map.empty] by auto
  from learning_rate_is_constant [OF h1 h2 h3] h1 h2 h3 n show ?thesis by blast
qed

text \<open>
  C7. The save cell writes one file, \<^verbatim>\<open>.\model\<close>, and what it writes is the parameter
  dictionary of the model: the weight and the bias of each of the four linear layers and
  nothing else. Every other file, the model in memory and the optimizer are as before;
  the cell prints one line.
\<close>

theorem cell_save_writes_state_dict:
  assumes "NeuralNetwork_ok (model w)"
  shows "\<exists>a b c d.
           linear_relu_stack (model w) = [Lin a, ReLU, Lin b, ReLU, Lin c, ReLU, Lin d] \<and>
           files (cell_save w) =
             (files w)(model_path \<mapsto>
               [(Weight 0, weight a), (Bias 0, bias a), (Weight 2, weight b), (Bias 2, bias b),
                (Weight 4, weight c), (Bias 4, bias c), (Weight 6, weight d), (Bias 6, bias d)]) \<and>
           files (cell_save w) = torch_save (state_dict (model w)) model_path (files w) \<and>
           files (cell_save w) model_path = Some (state_dict (model w)) \<and>
           model (cell_save w) = model w \<and>
           optimizer (cell_save w) = optimizer w \<and>
           trace (cell_save w) = trace w @ [Print (Saved model_path)]"
proof -
  from assms obtain a b c d where
    st: "linear_relu_stack (model w) = [Lin a, ReLU, Lin b, ReLU, Lin c, ReLU, Lin d]"
    by (rule NeuralNetwork_ok_stack)
  show ?thesis
    using st state_dict_stack [OF st] by (simp add: cell_save_def torch_save_def)
qed

theorem cell_save_writes_state_dict_witness:
  "NeuralNetwork_ok (model (start (\<lambda>k i. 0) Map.empty)) \<and>
   (\<exists>a b c d.
      linear_relu_stack (model (start (\<lambda>k i. 0) Map.empty)) =
        [Lin a, ReLU, Lin b, ReLU, Lin c, ReLU, Lin d] \<and>
      files (cell_save (start (\<lambda>k i. 0) Map.empty)) =
        [model_path \<mapsto>
          [(Weight 0, weight a), (Bias 0, bias a), (Weight 2, weight b), (Bias 2, bias b),
           (Weight 4, weight c), (Bias 4, bias c), (Weight 6, weight d), (Bias 6, bias d)]])"
proof -
  have ok: "NeuralNetwork_ok (model (start (\<lambda>k i. 0) Map.empty))"
    by (simp add: start_def)
  have fs: "files (start (\<lambda>k i. 0) Map.empty) = Map.empty"
    by (simp add: start_def)
  from cell_save_writes_state_dict [OF ok] show ?thesis
    unfolding fs using ok by blast
qed

text \<open>
  C8. A call of \<^verbatim>\<open>test\<close> and the prediction cell leave every parameter of the model, its
  gradients and the optimizer as they were: whatever the data loader, the loss function
  and the state, the layers (and so the parameter dictionary), \<^verbatim>\<open>.grad\<close> and the
  optimizer after the call are those before it. Only the mode flag of the model is set
  by \<^verbatim>\<open>model.eval()\<close>.
\<close>

theorem evaluation_keeps_parameters:
  "(\<forall>w'. test dl lf w = Inr w' \<longrightarrow>
      linear_relu_stack (model w') = linear_relu_stack (model w) \<and>
      state_dict (model w') = state_dict (model w) \<and>
      grad (model w') = grad (model w) \<and> optimizer w' = optimizer w) \<and>
   (\<forall>w'. cell_predict test_data w = Inr w' \<longrightarrow>
      linear_relu_stack (model w') = linear_relu_stack (model w) \<and>
      state_dict (model w') = state_dict (model w) \<and>
      grad (model w') = grad (model w) \<and> optimizer w' = optimizer w)"
proof (intro conjI allI impI)
  fix w' assume "test dl lf w = Inr w'"
  from test_frame [OF this]
  show "linear_relu_stack (model w') = linear_relu_stack (model w)"
    "grad (model w') = grad (model w)" "optimizer w' = optimizer w"
    by simp_all
  then show "state_dict (model w') = state_dict (model w)"
    by (intro state_dict_cong)
next
  fix w' assume "cell_predict test_data w = Inr w'"
  from cell_predict_frame [OF this]
  show "linear_relu_stack (model w') = linear_relu_stack (model w)"
    "grad (model w') = grad (model w)" "optimizer w' = optimizer w"
    by simp_all
  then show "state_dict (model w') = state_dict (model w)"
    by (intro state_dict_cong)
qed

theorem evaluation_keeps_parameters_witness:
  "\<exists>w1 w2.
     test \<lparr>dataset = [(blank_image, 9)], dl_batch_size = 64\<rparr> loss_fn (start (\<lambda>k i. 0) Map.empty) = Inr w1 \<and>
     state_dict (model w1) = state_dict (model (start (\<lambda>k i. 0) Map.empty)) \<and>
     grad (model w1) = None \<and> optimizer w1 = \<lparr>lr = 1 / 1000\<rparr> \<and>
     cell_predict [(blank_image, 9)] (start (\<lambda>k i. 0) Map.empty) = Inr w2 \<and>
     state_dict (model w2) = state_dict (model (start (\<lambda>k i. 0) Map.empty)) \<and>
     grad (model w2) = None \<and> optimizer w2 = \<lparr>lr = 1 / 1000\<rparr>"
proof -
  let ?w = "start (\<lambda>k i. 0) Map.empty"
  have ok: "NeuralNetwork_ok (model ?w)" by (simp add: start_def)
  have g: "grad (model ?w) = None" "optimizer ?w = \<lparr>lr = 1 / 1000\<rparr>"
    by (simp_all add: start_def NeuralNetwork_init_def)
  obtain w1 where w1:
    "test \<lparr>dataset = [(blank_image, 9)], dl_batch_size = 64\<rparr> loss_fn ?w = Inr w1"
    using test_returns [OF ok, of "[(blank_image, 9)]" 64] by simp
  obtain w2 where w2: "cell_predict [(blank_image, 9)] ?w = Inr w2"
    using cell_predict_ok [OF ok image_ok_blank, of 9 "[]"] by auto
  have r: "test \<lparr>dataset = [(blank_image, 9)], dl_batch_size = 64\<rparr> loss_fn ?w = Inr w1 \<and>
     state_dict (model w1) = state_dict (model ?w) \<and>
     grad (model w1) = None \<and> optimizer w1 = \<lparr>lr = 1 / 1000\<rparr> \<and>
     cell_predict [(blank_image, 9)] ?w = Inr w2 \<and>
     state_dict (model w2) = state_dict (model ?w) \<and>
     grad (model w2) = None \<and> optimizer w2 = \<lparr>lr = 1 / 1000\<rparr>"
    using evaluation_keeps_parameters
      [of "\<lparr>dataset = [(blank_image, 9)], dl_batch_size = 64\<rparr>" loss_fn ?w "[(blank_image, 9)]"]
      w1 w2 g
    by simp
  show ?thesis
    by (rule exI [of _ w1], rule exI [of _ w2]) (rule r)
qed

text \<open>
  C9. With batches of 64 the 10000 test samples make 156 full batches and a last batch of
  16, the 60000 training samples 937 full batches and a last batch of 32. The average loss
  that \<^verbatim>\<open>test\<close> prints is the sum of the 157 batch means divided by 157; it differs from
  the mean loss over the 10000 samples exactly when the mean loss of the last batch differs
  from the mean loss of the samples of the other 156 batches.
\<close>

theorem last_batch_partial_and_average_loss:
  assumes "NeuralNetwork_ok (model w)" "list_all sample_ok test_data"
    "length test_data = 10000" "length training_data = 60000"
  shows "DataLoader_iter (test_dataloader test_data) = map collate (chunks 64 test_data) \<and>
         DataLoader_iter (train_dataloader training_data) = map collate (chunks 64 training_data) \<and>
         map length (chunks 64 test_data) = replicate 156 64 @ [16] \<and>
         map length (chunks 64 training_data) = replicate 937 64 @ [32] \<and>
         chunks 64 test_data = chunks 64 (take 9984 test_data) @ [drop 9984 test_data] \<and>
         (\<exists>acc avg.
            test (test_dataloader test_data) loss_fn w =
              Inr (w\<lparr>model := model_eval (model w),
                     trace := trace w @ [Print (TestError acc avg)]\<rparr>) \<and>
            avg = sum_list (map (batch_loss (model w)) (chunks 64 test_data)) / 157 \<and>
            (avg \<noteq> batch_loss (model w) test_data \<longleftrightarrow>
             batch_loss (model w) (drop 9984 test_data) \<noteq>
               batch_loss (model w) (take 9984 test_data)))"
proof -
  have l1: "length test_data = 156 * 64 + 16" using assms(3) by simp
  have l2: "length training_data = 937 * 64 + 32" using assms(4) by simp
  have m1: "map length (chunks 64 test_data) = replicate 156 64 @ [16]"
    by (rule map_length_chunks [OF _ l1]) simp_all
  have m2: "map length (chunks 64 training_data) = replicate 937 64 @ [32]"
    by (rule map_length_chunks [OF _ l2]) simp_all
  have sp: "chunks 64 test_data = chunks 64 (take 9984 test_data) @ [drop 9984 test_data]"
    using chunks_last_partial(1) [OF _ l1] by simp
  have ne: "test_data \<noteq> []" using assms(3) by auto
  have it: "DataLoader_iter (test_dataloader test_data) = map collate (chunks 64 test_data)"
    "DataLoader_iter (train_dataloader training_data) = map collate (chunks 64 training_data)"
    by (simp_all add: DataLoader_iter_def test_dataloader_def train_dataloader_def batch_size_def)
  note av = test_average_vs_sample_mean [OF assms(3), of "model w"]
  have t: "test (test_dataloader test_data) loss_fn w =
      Inr (w\<lparr>model := model_eval (model w),
             trace := trace w @
               [Print (TestError
                  (100 * (real (length (filter (correct (model w)) test_data)) /
                     real (length test_data)))
                  (sum_list (map (batch_loss (model w)) (chunks 64 test_data)) / 157))]\<rparr>)"
    using test_returns [OF assms(1,2) ne, of 64] av
    by (simp add: test_dataloader_def batch_size_def)
  have ex: "\<exists>acc avg.
      test (test_dataloader test_data) loss_fn w =
        Inr (w\<lparr>model := model_eval (model w), trace := trace w @ [Print (TestError acc avg)]\<rparr>) \<and>
      avg = sum_list (map (batch_loss (model w)) (chunks 64 test_data)) / 157 \<and>
      (avg \<noteq> batch_loss (model w) test_data \<longleftrightarrow>
       batch_loss (model w) (drop 9984 test_data) \<noteq> batch_loss (model w) (take 9984 test_data))"
    apply (rule exI, rule exI)
    apply (rule conjI, rule t)
    apply (rule conjI, rule refl)
    using av apply blast
    done
  from it m1 m2 sp ex show ?thesis by (intro conjI)
qed

theorem last_batch_partial_and_average_loss_witness:
  "NeuralNetwork_ok (model (start (\<lambda>k i. 0) Map.empty)) \<and>
   list_all sample_ok (replicate 10000 (blank_image, 9)) \<and>
   length (replicate 10000 (blank_image, 9 :: int)) = 10000 \<and>
   length (replicate 60000 (blank_image, 9 :: int)) = 60000 \<and>
   map length (chunks 64 (replicate 10000 (blank_image, 9 :: int))) = replicate 156 64 @ [16] \<and>
   map length (chunks 64 (replicate 60000 (blank_image, 9 :: int))) = replicate 937 64 @ [32]"
proof -
  let ?w = "start (\<lambda>k i. 0) Map.empty"
  have h1: "NeuralNetwork_ok (model ?w)" by (simp add: start_def)
  have h2: "list_all sample_ok (replicate 10000 (blank_image, 9))"
    by (rule list_all_replicate_ok) (rule sample_ok_blank)
  have h3: "length (replicate 10000 (blank_image, 9 :: int)) = 10000" by (rule length_replicate)
  have h4: "length (replicate 60000 (blank_image, 9 :: int)) = 60000" by (rule length_replicate)
  from last_batch_partial_and_average_loss [OF h1 h2 h3 h4] h1 h2 h3 h4
  show ?thesis by blast
qed

text \<open>
  C10. In the prediction cell the index \<^verbatim>\<open>pred[0].argmax(0)\<close> is below 10, the length of
  \<open>classes\<close>: for a model of the class NeuralNetwork and a first test sample that is a
  28 by 28 image with a label from 0 to 9, both lookups in \<open>classes\<close> succeed and the cell
  prints the two names.
\<close>

theorem cell_predict_in_bounds:
  assumes "NeuralNetwork_ok (model w)" "image_ok x" "0 \<le> y" "y < 10"
  shows "length classes = 10 \<and>
         (\<exists>pred p0 k.
            forward (model_eval (model w)) x = Inr pred \<and> shape pred = [1, 10] \<and>
            tensor_get pred 0 = Inr p0 \<and> shape p0 = [10] \<and>
            argmax0 p0 = Inr k \<and> k < 10 \<and>
            list_get classes (int k) = Inr (classes ! k) \<and>
            list_get classes y = Inr (classes ! nat y) \<and>
            cell_predict ((x, y) # test_data) w =
              Inr (w\<lparr>model := model_eval (model w),
                     trace := trace w @ [Print (Predicted (classes ! k) (classes ! nat y))]\<rparr>))"
  using assms by (rule cell_predict_ok)

theorem cell_predict_in_bounds_witness:
  "NeuralNetwork_ok (model (start (\<lambda>k i. 0) Map.empty)) \<and>
   image_ok blank_image \<and> (0::int) \<le> 9 \<and> (9::int) < 10 \<and>
   cell_predict [(blank_image, 9)] (start (\<lambda>k i. 0) Map.empty) =
     Inr ((start (\<lambda>k i. 0) Map.empty)
            \<lparr>model := model_eval (model (start (\<lambda>k i. 0) Map.empty)),
              trace := [Print (Predicted ''T-shirt/top'' ''Ankle boot'')]\<rparr>)"
proof -
  let ?w = "start (\<lambda>k i. 0) Map.empty"
  let ?m = "model_eval (model ?w)"
  have ok: "NeuralNetwork_ok (model ?w)" by simp
  have im: "image_ok blank_image" by simp
  have c0: "classes ! 0 = ''T-shirt/top''" by (simp add: classes_def)
  have c9: "classes ! 9 = ''Ankle boot''" by (simp add: classes_def eval_nat_numeral)
  have "predicted_class ?m = predicted_class (NeuralNetwork_init (\<lambda>k i. 0))"
    by (rule predicted_class_cong) (simp add: model_start)
  then have p: "predicted_class ?m blank_image = Inr 0"
    by (simp add: predicted_class_zero_network)
  from cell_predict_in_bounds [OF ok im, of 9 "[]"] obtain pred p0 k where
    f: "forward ?m blank_image = Inr pred" "tensor_get pred 0 = Inr p0" "argmax0 p0 = Inr k"
    and c: "cell_predict [(blank_image, 9)] ?w =
      Inr (?w\<lparr>model := ?m,
              trace := trace ?w @ [Print (Predicted (classes ! k) (classes ! nat 9))]\<rparr>)"
    by auto
  from f have "predicted_class ?m blank_image = Inr k" by (simp add: predicted_class_def)
  with p have "k = 0" by simp
  with c have "cell_predict [(blank_image, 9)] ?w =
      Inr (?w\<lparr>model := ?m, trace := [Print (Predicted ''T-shirt/top'' ''Ankle boot'')]\<rparr>)"
    by (simp add: c0 c9)
  with ok im show ?thesis by simp
qed

end
